theory Spec2Isabelle
  imports Complex_Main "HOL-Library.AList"
begin

section \<open>Sampling / power controller (lib/power_manager.py)\<close>

text \<open>
  Python floats are modelled as exact rationals and Python ints as \<open>int\<close>.  The
  millisecond clock \<open>time.ticks_ms()\<close> is an input of every operation that reads it.
\<close>

definition NO_LOAD_THRESHOLD_G :: rat where
  "NO_LOAD_THRESHOLD_G = 1"

definition NO_LOAD_STABLE_SAMPLES :: int where
  "NO_LOAD_STABLE_SAMPLES = 20"

definition NO_LOAD_IDLE_SECONDS :: rat where
  "NO_LOAD_IDLE_SECONDS = 30"

record power_manager =
  no_load_count :: int
  last_active_ms :: int
  idle :: bool

text \<open>\<open>PowerManager.__init__\<close>; \<open>now\<close> is the value of \<open>time.ticks_ms()\<close>.\<close>

definition pm_init :: "int \<Rightarrow> power_manager" where
  "pm_init now = \<lparr>no_load_count = 0, last_active_ms = now, idle = False\<rparr>"

definition update_with_weight :: "int \<Rightarrow> rat \<Rightarrow> power_manager \<Rightarrow> power_manager" where
  "update_with_weight now weight_g m =
     (if \<bar>weight_g\<bar> < NO_LOAD_THRESHOLD_G then
        (let pm1 = m\<lparr>no_load_count := no_load_count m + 1\<rparr>
         in if no_load_count pm1 \<ge> NO_LOAD_STABLE_SAMPLES then pm1\<lparr>idle := True\<rparr> else pm1)
      else m\<lparr>no_load_count := 0, last_active_ms := now, idle := False\<rparr>)"

text \<open>Feeding a sequence of samples, each with the clock value at which it is taken.\<close>

fun feed_weights :: "(int \<times> rat) list \<Rightarrow> power_manager \<Rightarrow> power_manager" where
  "feed_weights [] m = m"
| "feed_weights ((now, w) # ws) m = feed_weights ws (update_with_weight now w m)"

section \<open>Indicator state machines\<close>

text \<open>
  \<open>time.ticks_diff\<close> of MicroPython: the signed difference of two tick values on the
  wrapping millisecond clock, whose period on the ESP32 ports is \<open>2 ^ 30\<close>.
\<close>

definition TICKS_PERIOD :: int where
  "TICKS_PERIOD = 2 ^ 30"

definition ticks_diff :: "int \<Rightarrow> int \<Rightarrow> int" where
  "ticks_diff a b = ((a - b + TICKS_PERIOD div 2) mod TICKS_PERIOD) - TICKS_PERIOD div 2"

type_synonym rgb = "int \<times> int \<times> int"

definition C_OFF :: rgb where "C_OFF = (0, 0, 0)"
definition C_B :: rgb where "C_B = (0, 0, 255)"
definition C_G :: rgb where "C_G = (0, 255, 0)"
definition C_R :: rgb where "C_R = (255, 0, 0)"

text \<open>Python's \<open>int(x)\<close> of a float: truncation towards zero.\<close>

definition py_int :: "rat \<Rightarrow> int" where
  "py_int q = (if q \<ge> 0 then \<lfloor>q\<rfloor> else \<lceil>q\<rceil>)"

text \<open>\<open>_scale(rgb, b)\<close>, the same function in both indicator modules.\<close>

definition scale_rgb :: "rgb \<Rightarrow> rat \<Rightarrow> rgb" where
  "scale_rgb c b = (case c of (r, g, bb) \<Rightarrow>
     (py_int (of_int r * b), py_int (of_int g * b), py_int (of_int bb * b)))"

text \<open>The static helpers \<open>_win\<close> and \<open>_blink\<close>, the same in both classes.\<close>

definition win :: "int \<Rightarrow> int option \<Rightarrow> int \<Rightarrow> bool" where
  "win now t0 w = (case t0 of None \<Rightarrow> False | Some t \<Rightarrow> ticks_diff now t < w)"

definition blink :: "int \<Rightarrow> int \<Rightarrow> int" where
  "blink now period =
     (if period \<le> 0 then 0
      else (now div (if period div 2 = 0 then 1 else period div 2)) mod 2)"

subsection \<open>C6ComboLEDManager (esp32-c6/led_manager_c6_combo.py)\<close>

text \<open>
  The NeoPixel is an external device: \<open>c6_np_pixel\<close> is the colour last latched on pixel
  \<open>_idx\<close> by a \<open>write()\<close> that returned.  Whether the driver raises during one call of
  \<open>_set_rgb\<close> is an input of that call (\<open>fault\<close>); a call that raises latches nothing.
  The three discrete pins hold the level last written to them.
\<close>

record c6_led =
  c6_np_ok :: bool
  c6_np_pixel :: rgb
  c6_b :: rat
  c6_red :: int
  c6_green :: int
  c6_blue :: int
  c6_low :: bool
  c6_connected :: bool
  c6_t_xfer :: "int option"
  c6_t_err :: "int option"
  c6_p_blue :: int
  c6_w_green :: int
  c6_p_green :: int
  c6_w_red :: int
  c6_p_red :: int

text \<open>\<open>_pin_set\<close>: returns the level of the pin after the call, \<open>cur\<close> being its level before.\<close>

definition pin_set :: "bool \<Rightarrow> int \<Rightarrow> int \<Rightarrow> int" where
  "pin_set low cur v =
     (let v' = (if low then (if v \<noteq> 0 then 0 else 1) else v)
      in if cur \<noteq> v' then v' else cur)"

definition set_rgb :: "rgb \<Rightarrow> bool \<Rightarrow> c6_led \<Rightarrow> c6_led" where
  "set_rgb c fault s =
     (let s1 = (if c6_np_ok s
                then (if fault then s\<lparr>c6_np_ok := False\<rparr>
                      else s\<lparr>c6_np_pixel := scale_rgb c (c6_b s)\<rparr>)
                else s)
      in case c of (r, g, b) \<Rightarrow>
           s1\<lparr>c6_red := pin_set (c6_low s1) (c6_red s1) (if r \<noteq> 0 then 1 else 0),
              c6_green := pin_set (c6_low s1) (c6_green s1) (if g \<noteq> 0 then 1 else 0),
              c6_blue := pin_set (c6_low s1) (c6_blue s1) (if b \<noteq> 0 then 1 else 0)\<rparr>)"

definition c6_on_connect :: "bool \<Rightarrow> c6_led \<Rightarrow> c6_led" where
  "c6_on_connect fault s = set_rgb C_B fault (s\<lparr>c6_connected := True\<rparr>)"

definition c6_on_disconnect :: "c6_led \<Rightarrow> c6_led" where
  "c6_on_disconnect s = s\<lparr>c6_connected := False, c6_t_xfer := None\<rparr>"

definition c6_on_transfer :: "int \<Rightarrow> c6_led \<Rightarrow> c6_led" where
  "c6_on_transfer now s = s\<lparr>c6_t_xfer := Some now\<rparr>"

definition c6_on_error :: "int \<Rightarrow> c6_led \<Rightarrow> c6_led" where
  "c6_on_error now s = s\<lparr>c6_t_err := Some now\<rparr>"

definition c6_off_all :: "bool \<Rightarrow> c6_led \<Rightarrow> c6_led" where
  "c6_off_all fault s = set_rgb C_OFF fault s"

definition c6_update :: "int \<Rightarrow> bool \<Rightarrow> c6_led \<Rightarrow> c6_led" where
  "c6_update now fault s =
     (if win now (c6_t_err s) (c6_w_red s) then
        set_rgb (if blink now (c6_p_red s) \<noteq> 0 then C_R else C_OFF) fault s
      else if c6_connected s \<and> win now (c6_t_xfer s) (c6_w_green s) then
        set_rgb (if blink now (c6_p_green s) \<noteq> 0 then C_G else C_OFF) fault s
      else if c6_connected s then set_rgb C_B fault s
      else set_rgb (if blink now (c6_p_blue s) \<noteq> 0 then C_B else C_OFF) fault s)"

text \<open>
  \<open>__init__\<close> with the default timings: \<open>np_avail\<close> tells whether the NeoPixel module is
  present and its constructor returned; \<open>f0\<close> \<dots> \<open>f4\<close> are the faults of the initial write
  and of the four writes of the self test.  The latched colour of a pixel that was never
  written is taken as off.
\<close>

definition c6_init :: "bool \<Rightarrow> rat \<Rightarrow> bool \<Rightarrow> bool \<Rightarrow> bool \<Rightarrow> bool \<Rightarrow> bool \<Rightarrow> bool \<Rightarrow> bool \<Rightarrow> c6_led" where
  "c6_init np_avail np_brightness active_low_rgb self_test f0 f1 f2 f3 f4 =
     (let s0 = \<lparr>c6_np_ok = np_avail, c6_np_pixel = C_OFF, c6_b = np_brightness,
                c6_red = 0, c6_green = 0, c6_blue = 0, c6_low = active_low_rgb,
                c6_connected = False, c6_t_xfer = None, c6_t_err = None,
                c6_p_blue = 1000, c6_w_green = 600, c6_p_green = 200,
                c6_w_red = 2000, c6_p_red = 180\<rparr>;
          s1 = set_rgb C_OFF f0 s0
      in if c6_np_ok s1 \<and> self_test
         then set_rgb C_OFF f4 (set_rgb C_B f3 (set_rgb C_G f2 (set_rgb C_R f1 s1)))
         else s1)"

text \<open>
  The calls the control loop and the transport callbacks make on a manager, each with the
  clock value it reads and the fault of the NeoPixel write it makes; a manager ignores the
  argument its method has no use for.
\<close>

datatype led_event =
  Connect bool | Disconnect bool | Transfer int | Error int bool | Update int bool | OffAll bool

fun c6_step :: "led_event \<Rightarrow> c6_led \<Rightarrow> c6_led" where
  "c6_step (Connect f) s = c6_on_connect f s"
| "c6_step (Disconnect f) s = c6_on_disconnect s"
| "c6_step (Transfer now) s = c6_on_transfer now s"
| "c6_step (Error now f) s = c6_on_error now s"
| "c6_step (Update now f) s = c6_update now f s"
| "c6_step (OffAll f) s = c6_off_all f s"

fun c6_run :: "led_event list \<Rightarrow> c6_led \<Rightarrow> c6_led" where
  "c6_run [] s = s"
| "c6_run (e # es) s = c6_run es (c6_step e s)"

text \<open>
  The resolution order of the indicator as the specification words it: error first, then
  the transfer pulse of a connected device, then the connected baseline, then searching;
  error, pulse and searching blink.
\<close>

definition c6_resolve :: "int \<Rightarrow> c6_led \<Rightarrow> rgb" where
  "c6_resolve now s =
     (if win now (c6_t_err s) (c6_w_red s)
      then (if blink now (c6_p_red s) \<noteq> 0 then C_R else C_OFF)
      else if c6_connected s \<and> win now (c6_t_xfer s) (c6_w_green s)
      then (if blink now (c6_p_green s) \<noteq> 0 then C_G else C_OFF)
      else if c6_connected s then C_B
      else (if blink now (c6_p_blue s) \<noteq> 0 then C_B else C_OFF))"

text \<open>The levels the three discrete pins show for a colour, with the polarity applied.\<close>

definition pin_level :: "bool \<Rightarrow> int \<Rightarrow> int" where
  "pin_level low c = (if low then (if c \<noteq> 0 then 0 else 1) else (if c \<noteq> 0 then 1 else 0))"

definition pins_show :: "c6_led \<Rightarrow> rgb \<Rightarrow> bool" where
  "pins_show s c = (case c of (r, g, b) \<Rightarrow>
     c6_red s = pin_level (c6_low s) r \<and> c6_green s = pin_level (c6_low s) g \<and>
     c6_blue s = pin_level (c6_low s) b)"

subsection \<open>S3RGBManager with the sticky error flag (lib/s3_neopixel_led_manager_v1_5_1.py)\<close>

record s3_led =
  s3_np_ok :: bool
  s3_np_pixel :: rgb
  s3_b :: rat
  s3_connected :: bool
  s3_t_xfer :: "int option"
  s3_error_active :: bool
  s3_p_blue :: int
  s3_w_green :: int
  s3_p_green :: int

definition s3_set :: "rgb \<Rightarrow> bool \<Rightarrow> s3_led \<Rightarrow> s3_led" where
  "s3_set c fault s =
     (if \<not> s3_np_ok s then s
      else if fault then s\<lparr>s3_np_ok := False\<rparr>
      else s\<lparr>s3_np_pixel := scale_rgb c (s3_b s)\<rparr>)"

definition s3_on_connect :: "bool \<Rightarrow> s3_led \<Rightarrow> s3_led" where
  "s3_on_connect fault s =
     (let s1 = s\<lparr>s3_connected := True\<rparr>
      in if \<not> s3_error_active s1 then s3_set C_B fault s1 else s1)"

definition s3_on_disconnect :: "bool \<Rightarrow> s3_led \<Rightarrow> s3_led" where
  "s3_on_disconnect fault s =
     (let s1 = s\<lparr>s3_connected := False, s3_t_xfer := None\<rparr>
      in if \<not> s3_error_active s1 then s3_set C_OFF fault s1 else s1)"

definition s3_on_transfer :: "int \<Rightarrow> s3_led \<Rightarrow> s3_led" where
  "s3_on_transfer now s = s\<lparr>s3_t_xfer := Some now\<rparr>"

definition s3_on_error :: "bool \<Rightarrow> s3_led \<Rightarrow> s3_led" where
  "s3_on_error fault s = s3_set C_R fault (s\<lparr>s3_error_active := True\<rparr>)"

definition s3_off_all :: "bool \<Rightarrow> s3_led \<Rightarrow> s3_led" where
  "s3_off_all fault s = s3_set C_OFF fault s"

definition s3_update :: "int \<Rightarrow> bool \<Rightarrow> s3_led \<Rightarrow> s3_led" where
  "s3_update now fault s =
     (if s3_error_active s then s3_set C_R fault s
      else if s3_connected s \<and> win now (s3_t_xfer s) (s3_w_green s) then
        s3_set (if blink now (s3_p_green s) \<noteq> 0 then C_G else C_OFF) fault s
      else if s3_connected s then s3_set C_B fault s
      else s3_set (if blink now (s3_p_blue s) \<noteq> 0 then C_B else C_OFF) fault s)"

definition s3_clear_error :: "int \<Rightarrow> bool \<Rightarrow> s3_led \<Rightarrow> s3_led" where
  "s3_clear_error now fault s = s3_update now fault (s\<lparr>s3_error_active := False\<rparr>)"

text \<open>
  The calls that are not \<open>clear_error\<close>; \<open>Error\<close> carries a clock value only for the
  time-windowed manager and the sticky one ignores it.
\<close>

fun s3_step :: "led_event \<Rightarrow> s3_led \<Rightarrow> s3_led" where
  "s3_step (Connect f) s = s3_on_connect f s"
| "s3_step (Disconnect f) s = s3_on_disconnect f s"
| "s3_step (Transfer now) s = s3_on_transfer now s"
| "s3_step (Error now f) s = s3_on_error f s"
| "s3_step (Update now f) s = s3_update now f s"
| "s3_step (OffAll f) s = s3_off_all f s"

fun s3_run :: "led_event list \<Rightarrow> s3_led \<Rightarrow> s3_led" where
  "s3_run [] s = s"
| "s3_run (e # es) s = s3_run es (s3_step e s)"

text \<open>The colour \<open>update\<close> resolves to when no error is flagged.\<close>

definition s3_normal_colour :: "int \<Rightarrow> s3_led \<Rightarrow> rgb" where
  "s3_normal_colour now s =
     (if s3_connected s \<and> win now (s3_t_xfer s) (s3_w_green s)
      then (if blink now (s3_p_green s) \<noteq> 0 then C_G else C_OFF)
      else if s3_connected s then C_B
      else (if blink now (s3_p_blue s) \<noteq> 0 then C_B else C_OFF))"

text \<open>\<open>__init__\<close> with the default timings, as for the combo manager.\<close>

definition s3_init :: "bool \<Rightarrow> rat \<Rightarrow> bool \<Rightarrow> bool \<Rightarrow> bool \<Rightarrow> bool \<Rightarrow> bool \<Rightarrow> bool \<Rightarrow> s3_led" where
  "s3_init np_avail np_brightness self_test f0 f1 f2 f3 f4 =
     (let s0 = \<lparr>s3_np_ok = np_avail, s3_np_pixel = C_OFF, s3_b = np_brightness,
                s3_connected = False, s3_t_xfer = None, s3_error_active = False,
                s3_p_blue = 1000, s3_w_green = 600, s3_p_green = 200\<rparr>;
          s1 = s3_set C_OFF f0 s0
      in if s3_np_ok s1 \<and> self_test
         then s3_set C_OFF f4 (s3_set C_B f3 (s3_set C_G f2 (s3_set C_R f1 s1)))
         else s1)"

text \<open>
  Two freshly constructed managers (default brightness \<open>0.2\<close>, no self test, no fault),
  used as concrete inputs below.
\<close>

definition c6_demo :: c6_led where
  "c6_demo = c6_init True (1/5) False False False False False False False"

definition s3_demo :: s3_led where
  "s3_demo = s3_init True (1/5) False False False False False False"

section \<open>BLE scale: framer and responder (esp32-s3/unf_s3_v1_3_2.py)\<close>

subsection \<open>Python values, dictionaries and string helpers\<close>

text \<open>
  The values a telemetry dictionary or a decoded JSON text can hold.  \<open>bytes\<close> and \<open>str\<close>
  are both byte strings here, a \<open>str\<close> being its UTF-8 encoding, which is how MicroPython
  stores it; every string operation of the framer looks for ASCII characters only, so
  indices and slices agree with those on code points.
\<close>

datatype pyval =
  PNone | PBool bool | PInt int | PFloat rat | PStr string
  | PList "pyval list" | PDict "(string \<times> pyval) list"

type_synonym dict = "(string \<times> pyval) list"

text \<open>\<open>d[k] = v\<close> and \<open>d.update(other)\<close> on a dictionary kept in insertion order.\<close>

definition dict_set :: "string \<Rightarrow> pyval \<Rightarrow> dict \<Rightarrow> dict" where
  "dict_set k v d = AList.update k v d"

definition dict_update :: "dict \<Rightarrow> dict \<Rightarrow> dict" where
  "dict_update d other = fold (\<lambda>(k, v). dict_set k v) other d"

definition dict_get :: "dict \<Rightarrow> string \<Rightarrow> pyval option" where
  "dict_get d k = map_of d k"

text \<open>ASCII whitespace, as \<open>bytes.strip()\<close> and MicroPython's \<open>str.strip()\<close> remove it.\<close>

definition is_space :: "char \<Rightarrow> bool" where
  "is_space c = (c \<in> set [CHR '' '', CHR 0x09, CHR 0x0A, CHR 0x0D, CHR 0x0B, CHR 0x0C])"

definition py_strip :: "string \<Rightarrow> string" where
  "py_strip s = rev (dropWhile is_space (rev (dropWhile is_space s)))"

text \<open>
  \<open>text.find(pat, start)\<close>: the lowest index at or after \<open>start\<close> where \<open>pat\<close> occurs,
  \<open>None\<close> for Python's \<open>-1\<close>.
\<close>

fun find_at :: "string \<Rightarrow> string \<Rightarrow> nat \<Rightarrow> nat option" where
  "find_at pat [] i = (if pat = [] then Some i else None)"
| "find_at pat (c # cs) i =
     (if take (length pat) (c # cs) = pat then Some i else find_at pat cs (Suc i))"

definition py_find :: "string \<Rightarrow> string \<Rightarrow> nat \<Rightarrow> nat option" where
  "py_find text pat start =
     (if start \<le> length text then find_at pat (drop start text) start else None)"

text \<open>\<open>text.rfind(c)\<close> for a single character.\<close>

definition py_rfind :: "string \<Rightarrow> char \<Rightarrow> nat option" where
  "py_rfind text c =
     (case find_at [c] (rev text) 0 of None \<Rightarrow> None | Some j \<Rightarrow> Some (length text - 1 - j))"

text \<open>\<open>s.replace(c, "")\<close> for a single character and for the byte order mark U+FEFF.\<close>

definition remove_char :: "char \<Rightarrow> string \<Rightarrow> string" where
  "remove_char c s = filter (\<lambda>x. x \<noteq> c) s"

fun remove_bom :: "string \<Rightarrow> string" where
  "remove_bom (a # b # c # cs) =
     (if a = CHR 0xEF \<and> b = CHR 0xBB \<and> c = CHR 0xBF then remove_bom cs
      else a # remove_bom (b # c # cs))"
| "remove_bom cs = cs"

text \<open>
  \<open>bytes.decode("utf-8", "ignore")\<close>: the bytes of every well-formed UTF-8 sequence are
  kept and every other byte is dropped.  \<open>utf8_seq_len c cs\<close> is the length of the
  well-formed sequence that starts with \<open>c\<close>, or 0.
\<close>

definition in_rng :: "string \<Rightarrow> nat \<Rightarrow> nat \<Rightarrow> nat \<Rightarrow> bool" where
  "in_rng cs i lo hi = (i < length cs \<and> lo \<le> (of_char (cs ! i) :: nat) \<and> (of_char (cs ! i) :: nat) \<le> hi)"

definition utf8_seq_len :: "char \<Rightarrow> string \<Rightarrow> nat" where
  "utf8_seq_len c cs =
     (let b = (of_char c :: nat) in
      if b < 0x80 then 1
      else if 0xC2 \<le> b \<and> b \<le> 0xDF \<and> in_rng cs 0 0x80 0xBF then 2
      else if b = 0xE0 \<and> in_rng cs 0 0xA0 0xBF \<and> in_rng cs 1 0x80 0xBF then 3
      else if b = 0xED \<and> in_rng cs 0 0x80 0x9F \<and> in_rng cs 1 0x80 0xBF then 3
      else if 0xE1 \<le> b \<and> b \<le> 0xEF \<and> b \<noteq> 0xED \<and> in_rng cs 0 0x80 0xBF \<and> in_rng cs 1 0x80 0xBF
        then 3
      else if b = 0xF0 \<and> in_rng cs 0 0x90 0xBF \<and> in_rng cs 1 0x80 0xBF \<and> in_rng cs 2 0x80 0xBF
        then 4
      else if 0xF1 \<le> b \<and> b \<le> 0xF3 \<and> in_rng cs 0 0x80 0xBF \<and> in_rng cs 1 0x80 0xBF
          \<and> in_rng cs 2 0x80 0xBF then 4
      else if b = 0xF4 \<and> in_rng cs 0 0x80 0x8F \<and> in_rng cs 1 0x80 0xBF \<and> in_rng cs 2 0x80 0xBF
        then 4
      else 0)"

text \<open>The first argument counts the bytes still to copy of a sequence already checked.\<close>

fun utf8_scan :: "nat \<Rightarrow> string \<Rightarrow> string" where
  "utf8_scan k [] = []"
| "utf8_scan (Suc k) (c # cs) = c # utf8_scan k cs"
| "utf8_scan 0 (c # cs) =
     (let n = utf8_seq_len c cs in if n = 0 then utf8_scan 0 cs else c # utf8_scan (n - 1) cs)"

definition decode_ignore :: "string \<Rightarrow> string option" where
  "decode_ignore bs = Some (utf8_scan 0 bs)"

subsection \<open>Numbers\<close>

text \<open>
  \<open>float(text)\<close> on a text of the characters \<open>-+0123456789.eE\<close>: an optional sign, digits
  with an optional point (at least one digit), an optional exponent; \<open>None\<close> for
  \<open>ValueError\<close>.  The value is the exact rational the literal denotes: rounding to
  binary floating point and overflow to infinity are not modelled.
\<close>

definition is_digit :: "char \<Rightarrow> bool" where
  "is_digit c = (c \<in> set ''0123456789'')"

definition digits_val :: "string \<Rightarrow> int" where
  "digits_val ds = foldl (\<lambda>n c. 10 * n + (of_char c - 48)) 0 ds"

definition split_sign :: "string \<Rightarrow> bool \<times> string" where
  "split_sign s = (case s of
      c # cs \<Rightarrow> (if c = CHR ''-'' then (True, cs) else if c = CHR ''+'' then (False, cs)
                 else (False, s))
    | [] \<Rightarrow> (False, s))"

definition py_exponent :: "string \<Rightarrow> int option" where
  "py_exponent s = (case s of
      [] \<Rightarrow> Some 0
    | c # cs \<Rightarrow>
        (if c = CHR ''e'' \<or> c = CHR ''E'' then
           (case split_sign cs of (neg, ds) \<Rightarrow>
              if ds \<noteq> [] \<and> list_all is_digit ds
              then Some (if neg then - digits_val ds else digits_val ds)
              else None)
         else None))"

definition py_float :: "string \<Rightarrow> rat option" where
  "py_float s =
     (case split_sign s of (neg, body) \<Rightarrow>
        (let ip = takeWhile is_digit body;
             r1 = dropWhile is_digit body;
             has_point = (r1 \<noteq> [] \<and> hd r1 = CHR ''.'');
             fp = (if has_point then takeWhile is_digit (tl r1) else []);
             r2 = (if has_point then dropWhile is_digit (tl r1) else r1)
         in if ip = [] \<and> fp = [] then None
            else (case py_exponent r2 of
                    None \<Rightarrow> None
                  | Some e \<Rightarrow>
                      (let m = of_int (digits_val ip) + of_int (digits_val fp) / 10 ^ length fp;
                           v = (if e \<ge> 0 then m * 10 ^ nat e else m / 10 ^ nat (- e))
                       in Some (if neg then - v else v)))))"

text \<open>\<open>round(x, 7)\<close>: to seven decimals, ties to even.\<close>

definition round_half_even :: "rat \<Rightarrow> int" where
  "round_half_even q =
     (let f = \<lfloor>q\<rfloor>; d = q - of_int f
      in if d < 1/2 then f else if d > 1/2 then f + 1 else if even f then f else f + 1)"

definition py_round7 :: "rat \<Rightarrow> rat" where
  "py_round7 q = of_int (round_half_even (q * 10 ^ 7)) / 10 ^ 7"

subsection \<open>State of the BLE scale\<close>

text \<open>
  What the methods print, as a trace: one entry per \<open>print\<close> call of the framers, the
  responder and \<open>clear\<close>, with the value printed.
\<close>

datatype log_entry =
  RawBytes string | DecodeError | FragmentIgnored string | CleanString string
  | UpdatingFused string | UpdatingGps string | UnknownHandle int string
  | SendingFused dict | SendingGps dict | UnknownTx int | FailedToSend | DataReset
  | ParseFailed string | LatitudeDecoded pyval | LongitudeDecoded pyval
  | FusedRx string | GpsRx string | UnknownHandleData int dict | UnexpectedError
  | FailedToParse

text \<open>
  The six handles are the values \<open>gatts_register_services\<close> returned.  \<open>gatts\<close> holds, for
  each characteristic, the payload last written with \<open>gatts_write\<close>: the dictionary that
  \<open>ujson.dumps\<close> serialises.
\<close>

record ble_scale =
  rx_buffer :: string
  weight_tx :: rat
  pm :: power_manager
  fused_rx_data :: dict
  gps_rx_data :: dict
  tx_data :: dict
  weight_tx_handle :: int
  weight_rx_handle :: int
  fused_tx_handle :: int
  fused_rx_handle :: int
  gps_tx_handle :: int
  gps_rx_handle :: int
  gatts :: "(int \<times> dict) list"
  console :: "log_entry list"

definition print_log :: "log_entry \<Rightarrow> ble_scale \<Rightarrow> ble_scale" where
  "print_log e s = s\<lparr>console := console s @ [e]\<rparr>"

definition rx_defaults :: dict where
  "rx_defaults = [(''time'', PInt 0), (''latitude'', PFloat 0), (''longitude'', PFloat 0),
     (''speed'', PFloat 0), (''altitude'', PFloat 0), (''accuracy'', PFloat 0)]"

text \<open>
  The state \<open>__init__\<close> leaves, for the handles the BLE stack assigned and the clock value
  at which the power manager was created.
\<close>

definition ble_init :: "int \<Rightarrow> int \<Rightarrow> int \<Rightarrow> int \<Rightarrow> int \<Rightarrow> int \<Rightarrow> int \<Rightarrow> ble_scale" where
  "ble_init wt wr ft fr gt gr now =
     \<lparr>rx_buffer = [], weight_tx = 0, pm = pm_init now,
      fused_rx_data = rx_defaults, gps_rx_data = rx_defaults, tx_data = [],
      weight_tx_handle = wt, weight_rx_handle = wr, fused_tx_handle = ft,
      fused_rx_handle = fr, gps_tx_handle = gt, gps_rx_handle = gr,
      gatts = [], console = []\<rparr>"

text \<open>\<open>clear\<close> of version 1.3.2, called on disconnect; it leaves the buffer as it is.\<close>

definition clear :: "ble_scale \<Rightarrow> ble_scale" where
  "clear s = print_log DataReset
     (s\<lparr>fused_rx_data := rx_defaults, gps_rx_data := rx_defaults, tx_data := []\<rparr>)"

subsection \<open>The framer: \<open>save_received_data\<close>\<close>

text \<open>
  The nested helper \<open>_extract_number(text, key)\<close> with its default \<open>None\<close>: the two
  \<open>while\<close> loops skip blanks and then collect the characters of a number.
\<close>

definition extract_number :: "string \<Rightarrow> string \<Rightarrow> rat option" where
  "extract_number text key =
     (case py_find text (CHR 0x22 # key @ [CHR 0x22]) 0 of
        None \<Rightarrow> None
      | Some i \<Rightarrow>
          (case py_find text '':'' i of
             None \<Rightarrow> None
           | Some j \<Rightarrow>
               (let rest = dropWhile (\<lambda>c. c \<in> set [CHR '' '', CHR 0x09]) (drop (j + 1) text);
                    num = takeWhile (\<lambda>c. c \<in> set ''-+0123456789.eE'') rest
                in if num = [] then None else py_float num)))"

text \<open>
  Step 8 of the loop body: the values that were found are stored in the target
  dictionary, in the order of the source; \<open>time\<close> is stored as \<open>int(t)\<close>, which
  cannot raise on a rational, so the fallback that stores \<open>t\<close> itself has no case.
\<close>

definition store_opt :: "string \<Rightarrow> pyval option \<Rightarrow> dict \<Rightarrow> dict" where
  "store_opt k v d = (case v of None \<Rightarrow> d | Some x \<Rightarrow> dict_set k x d)"

definition merge_fields ::
  "rat option \<Rightarrow> rat option \<Rightarrow> rat option \<Rightarrow> rat option \<Rightarrow> rat option \<Rightarrow> rat option
     \<Rightarrow> dict \<Rightarrow> dict" where
  "merge_fields lat lon alt spd t acc target =
     store_opt ''accuracy'' (map_option PFloat acc)
       (store_opt ''time'' (map_option (\<lambda>x. PInt (py_int x)) t)
         (store_opt ''speed'' (map_option PFloat spd)
           (store_opt ''altitude'' (map_option PFloat alt)
             (store_opt ''longitude'' (map_option PFloat lon)
               (store_opt ''latitude'' (map_option PFloat lat) target)))))"

text \<open>
  Steps 6 to 8 for a line already cropped to its outer braces: the six fields are
  extracted, latitude and longitude rounded, and the result routed by the handle.
\<close>

definition apply_line :: "int \<Rightarrow> string \<Rightarrow> ble_scale \<Rightarrow> ble_scale" where
  "apply_line attr_handle c s =
     (let lat = map_option py_round7 (extract_number c ''latitude'');
          lon = map_option py_round7 (extract_number c ''longitude'');
          alt = extract_number c ''altitude'';
          spd = extract_number c ''speed'';
          t = extract_number c ''time'';
          acc = extract_number c ''accuracy''
      in if attr_handle = fused_rx_handle s then
           (let s1 = print_log (UpdatingFused c) s
            in s1\<lparr>fused_rx_data := merge_fields lat lon alt spd t acc (fused_rx_data s1)\<rparr>)
         else if attr_handle = gps_rx_handle s then
           (let s1 = print_log (UpdatingGps c) s
            in s1\<lparr>gps_rx_data := merge_fields lat lon alt spd t acc (gps_rx_data s1)\<rparr>)
         else print_log (UnknownHandle attr_handle c) s)"

text \<open>
  The body of the \<open>while\<close> loop for one line taken off the buffer (steps 2 to 5, then
  \<open>apply_line\<close>).  Each \<open>continue\<close> is a branch that returns the state as it is then.
  No other statement of the body raises on these values, so the outer \<open>except\<close> has no
  case.
\<close>

definition process_line :: "int \<Rightarrow> string \<Rightarrow> ble_scale \<Rightarrow> ble_scale" where
  "process_line attr_handle line s =
     (let json_bytes = py_strip line
      in if json_bytes = [] then s
         else
           (let s1 = print_log (RawBytes json_bytes) s
            in case decode_ignore json_bytes of
                 None \<Rightarrow> print_log DecodeError s1
               | Some d \<Rightarrow>
                   (let t = py_strip (remove_char (CHR 0x0D) (remove_char (CHR 0x00) (remove_bom d)))
                    in if t = [] then s1
                       else
                         (case (py_find t ''{'' 0, py_rfind t (CHR ''}'')) of
                            (Some lb, Some rb) \<Rightarrow>
                              if rb \<le> lb then print_log (FragmentIgnored t) s1
                              else
                                (let c = take (rb + 1 - lb) (drop lb t)
                                 in apply_line attr_handle c (print_log (CleanString c) s1))
                          | _ \<Rightarrow> print_log (FragmentIgnored t) s1))))"

text \<open>\<open>buf.split(b"\n", 1)\<close> when the buffer holds a newline, \<open>None\<close> when it holds none.\<close>

definition split_newline :: "string \<Rightarrow> (string \<times> string) option" where
  "split_newline buf =
     (if CHR 0x0A \<in> set buf
      then Some (takeWhile (\<lambda>c. c \<noteq> CHR 0x0A) buf, tl (dropWhile (\<lambda>c. c \<noteq> CHR 0x0A) buf))
      else None)"

lemma split_newline_shorter:
  "split_newline buf = Some (line, rest) \<Longrightarrow> length rest < length buf"
proof -
  assume a: "split_newline buf = Some (line, rest)"
  then have "rest = tl (dropWhile (\<lambda>c. c \<noteq> CHR 0x0A) buf)" and "CHR 0x0A \<in> set buf"
    by (auto simp: split_newline_def split: if_splits)
  moreover from this have "dropWhile (\<lambda>c. c \<noteq> CHR 0x0A) buf \<noteq> []"
    by simp
  moreover have "length (dropWhile (\<lambda>c. c \<noteq> CHR 0x0A) buf) \<le> length buf"
    by (rule length_dropWhile_le)
  ultimately show ?thesis
    by (cases "dropWhile (\<lambda>c. c \<noteq> CHR 0x0A) buf") auto
qed

lemma rx_buffer_process_line: "rx_buffer (process_line h line s) = rx_buffer s"
  by (simp add: process_line_def apply_line_def print_log_def Let_def
      split: option.splits prod.splits)

text \<open>The \<open>while b"\n" in self.rx_buffer\<close> loop.\<close>

function rx_loop :: "int \<Rightarrow> ble_scale \<Rightarrow> ble_scale" where
  "rx_loop attr_handle s =
     (case split_newline (rx_buffer s) of
        None \<Rightarrow> s
      | Some (json_bytes, rest) \<Rightarrow>
          rx_loop attr_handle (process_line attr_handle json_bytes (s\<lparr>rx_buffer := rest\<rparr>)))"
  by pat_completeness auto
termination
  by (relation "measure (\<lambda>(h, s). length (rx_buffer s))")
     (auto simp: rx_buffer_process_line dest: split_newline_shorter)

declare rx_loop.simps [simp del]

definition save_received_data :: "int \<Rightarrow> string \<Rightarrow> ble_scale \<Rightarrow> ble_scale" where
  "save_received_data attr_handle raw_data s =
     rx_loop attr_handle (s\<lparr>rx_buffer := rx_buffer s @ raw_data\<rparr>)"

text \<open>The byte chunks of successive write events on one characteristic.\<close>

fun save_chunks :: "int \<Rightarrow> string list \<Rightarrow> ble_scale \<Rightarrow> ble_scale" where
  "save_chunks h [] s = s"
| "save_chunks h (c # cs) s = save_chunks h cs (save_received_data h c s)"

subsection \<open>The responder: \<open>send_tx_as_json_response\<close>\<close>

text \<open>
  \<open>write_fails\<close> tells whether \<open>gatts_write\<close> (or the serialisation before it) raises in
  this call.
\<close>

definition gatts_write_tx :: "int \<Rightarrow> bool \<Rightarrow> ble_scale \<Rightarrow> ble_scale" where
  "gatts_write_tx attr_handle write_fails s =
     (if write_fails then print_log FailedToSend s
      else s\<lparr>gatts := AList.update attr_handle (tx_data s) (gatts s)\<rparr>)"

definition send_tx_as_json_response :: "int \<Rightarrow> bool \<Rightarrow> ble_scale \<Rightarrow> ble_scale" where
  "send_tx_as_json_response attr_handle write_fails s =
     (let s1 = s\<lparr>tx_data :=
                 [(''from'', PStr ''''), (''weight'', PFloat (weight_tx s)), (''time'', PInt 0),
                  (''latitude'', PFloat 0), (''longitude'', PFloat 0), (''speed'', PFloat 0),
                  (''altitude'', PFloat 0), (''accuracy'', PFloat 0),
                  (''idle'', PBool (idle (pm s)))]\<rparr>
      in if attr_handle = weight_tx_handle s1 then
           gatts_write_tx attr_handle write_fails
             (s1\<lparr>tx_data := dict_set ''from'' (PStr ''weight'') (tx_data s1)\<rparr>)
         else if attr_handle = fused_tx_handle s1 then
           (let s2 = s1\<lparr>tx_data := dict_set ''from'' (PStr ''fused'')
                                     (dict_update (tx_data s1) (fused_rx_data s1))\<rparr>
            in gatts_write_tx attr_handle write_fails (print_log (SendingFused (tx_data s2)) s2))
         else if attr_handle = gps_tx_handle s1 then
           (let s2 = s1\<lparr>tx_data := dict_set ''from'' (PStr ''gps'')
                                     (dict_update (tx_data s1) (gps_rx_data s1))\<rparr>
            in gatts_write_tx attr_handle write_fails (print_log (SendingGps (tx_data s2)) s2))
         else print_log (UnknownTx attr_handle) s1)"

text \<open>A scale just initialised, with handles 1 to 6, used as a concrete input below.\<close>

definition ble_demo :: ble_scale where
  "ble_demo = ble_init 1 2 3 4 5 6 0"

subsection \<open>What one line contributes\<close>

text \<open>
  Three functions that name the stages of the loop body, for stating what a line does:
  \<open>cleaned\<close> is the text after steps 2 to 4 (empty when the line is skipped as empty),
  \<open>cropped\<close> the text between the first opening and the last closing brace (\<open>None\<close> when
  step 5 ignores the line as a fragment), and \<open>line_delta\<close> the sparse update of the
  record: the value stored for each field name the scan finds.
\<close>

definition cleaned :: "string \<Rightarrow> string" where
  "cleaned line =
     (case decode_ignore (py_strip line) of
        None \<Rightarrow> []
      | Some d \<Rightarrow> py_strip (remove_char (CHR 0x0D) (remove_char (CHR 0x00) (remove_bom d))))"

definition cropped :: "string \<Rightarrow> string option" where
  "cropped line =
     (let t = cleaned line
      in case (py_find t ''{'' 0, py_rfind t (CHR ''}'')) of
           (Some lb, Some rb) \<Rightarrow> if rb \<le> lb then None else Some (take (rb + 1 - lb) (drop lb t))
         | _ \<Rightarrow> None)"

definition scan_fields :: "string \<Rightarrow> string \<Rightarrow> pyval option" where
  "scan_fields c k =
     (if k = ''latitude'' \<or> k = ''longitude''
      then map_option (\<lambda>x. PFloat (py_round7 x)) (extract_number c k)
      else if k = ''altitude'' \<or> k = ''speed'' \<or> k = ''accuracy''
      then map_option PFloat (extract_number c k)
      else if k = ''time'' then map_option (\<lambda>x. PInt (py_int x)) (extract_number c k)
      else None)"

definition line_delta :: "string \<Rightarrow> string \<Rightarrow> pyval option" where
  "line_delta line k = (case cropped line of None \<Rightarrow> None | Some c \<Rightarrow> scan_fields c k)"

subsection \<open>The wire format\<close>







subsection \<open>Strict decoding\<close>

text \<open>
  A strict decoder of JSON texts (RFC 8259), the reference for what \<open>ujson.loads\<close>, which
  is not part of the repository, returns: \<open>None\<close> for a text that is not JSON.  Objects
  become dictionaries (a repeated key keeps its last value), numbers without fraction and
  exponent become ints, the others floats.  The recursion is bounded by the length of the
  text.
\<close>

definition skip_ws :: "string \<Rightarrow> string" where
  "skip_ws s = dropWhile (\<lambda>c. c \<in> set [CHR '' '', CHR 0x09, CHR 0x0A, CHR 0x0D]) s"

definition hex_val :: "char \<Rightarrow> nat option" where
  "hex_val c =
     (let n = (of_char c :: nat)
      in if 48 \<le> n \<and> n \<le> 57 then Some (n - 48)
         else if 65 \<le> n \<and> n \<le> 70 then Some (n - 55)
         else if 97 \<le> n \<and> n \<le> 102 then Some (n - 87)
         else None)"

definition hex4 :: "char \<Rightarrow> char \<Rightarrow> char \<Rightarrow> char \<Rightarrow> nat option" where
  "hex4 a b c d =
     (case (hex_val a, hex_val b, hex_val c, hex_val d) of
        (Some w, Some x, Some y, Some z) \<Rightarrow> Some (((w * 16 + x) * 16 + y) * 16 + z)
      | _ \<Rightarrow> None)"

text \<open>The UTF-8 encoding of a code point below \<open>0x110000\<close>.\<close>

definition utf8_encode :: "nat \<Rightarrow> string" where
  "utf8_encode n =
     (if n < 0x80 then [char_of n]
      else if n < 0x800 then [char_of (0xC0 + n div 64), char_of (0x80 + n mod 64)]
      else if n < 0x10000 then
        [char_of (0xE0 + n div 4096), char_of (0x80 + (n div 64) mod 64), char_of (0x80 + n mod 64)]
      else [char_of (0xF0 + n div 262144), char_of (0x80 + (n div 4096) mod 64),
            char_of (0x80 + (n div 64) mod 64), char_of (0x80 + n mod 64)])"

definition json_escape :: "char \<Rightarrow> char option" where
  "json_escape e =
     (if e = CHR 0x22 \<or> e = CHR 0x5C \<or> e = CHR ''/'' then Some e
      else if e = CHR ''b'' then Some (CHR 0x08)
      else if e = CHR ''f'' then Some (CHR 0x0C)
      else if e = CHR ''n'' then Some (CHR 0x0A)
      else if e = CHR ''r'' then Some (CHR 0x0D)
      else if e = CHR ''t'' then Some (CHR 0x09)
      else None)"

text \<open>
  The characters of a string after its opening quote, up to the closing quote: the
  decoded text and what follows.  A high surrogate escape followed by a low one is one
  code point.
\<close>

fun json_string :: "string \<Rightarrow> (string \<times> string) option" where
  "json_string [] = None"
| "json_string (c # cs) =
     (if c = CHR 0x22 then Some ([], cs)
      else if c = CHR 0x5C then
        (case cs of
           [] \<Rightarrow> None
         | e # r \<Rightarrow>
             if e = CHR ''u'' then
               (case r of
                  a # b # c' # d # r1 \<Rightarrow>
                    (case hex4 a b c' d of
                       None \<Rightarrow> None
                     | Some hi \<Rightarrow>
                         (case r1 of
                            b1 # u1 # a2 # b2 # c2 # d2 # r2 \<Rightarrow>
                              (case hex4 a2 b2 c2 d2 of
                                 Some lo \<Rightarrow>
                                   if b1 = CHR 0x5C \<and> u1 = CHR ''u'' \<and> 0xD800 \<le> hi \<and> hi < 0xDC00
                                      \<and> 0xDC00 \<le> lo \<and> lo < 0xE000
                                   then map_option
                                          (\<lambda>(t, q). (utf8_encode (0x10000 + (hi - 0xD800) * 1024
                                                          + (lo - 0xDC00)) @ t, q))
                                          (json_string r2)
                                   else map_option (\<lambda>(t, q). (utf8_encode hi @ t, q)) (json_string r1)
                               | None \<Rightarrow>
                                   map_option (\<lambda>(t, q). (utf8_encode hi @ t, q)) (json_string r1))
                          | _ \<Rightarrow> map_option (\<lambda>(t, q). (utf8_encode hi @ t, q)) (json_string r1)))
                | _ \<Rightarrow> None)
             else
               (case json_escape e of
                  None \<Rightarrow> None
                | Some x \<Rightarrow> map_option (\<lambda>(t, q). (x # t, q)) (json_string r)))
      else if (of_char c :: nat) < 0x20 then None
      else map_option (\<lambda>(t, q). (c # t, q)) (json_string cs))"

text \<open>
  A number: the longest run of number characters must be a JSON number (no leading
  \<open>+\<close>, no leading zero before further digits, digits on both sides of a point).
\<close>

definition json_number_ok :: "string \<Rightarrow> bool" where
  "json_number_ok num =
     (let body = (case num of c # cs \<Rightarrow> if c = CHR ''-'' then cs else num | [] \<Rightarrow> num);
          ip = takeWhile is_digit body;
          r1 = dropWhile is_digit body;
          has_point = (r1 \<noteq> [] \<and> hd r1 = CHR ''.'');
          fp = (if has_point then takeWhile is_digit (tl r1) else []);
          r2 = (if has_point then dropWhile is_digit (tl r1) else r1)
      in ip \<noteq> [] \<and> (length ip = 1 \<or> hd ip \<noteq> CHR ''0'') \<and> (has_point = (fp \<noteq> []))
         \<and> (r1 = [] \<or> has_point \<or> hd r1 = CHR ''e'' \<or> hd r1 = CHR ''E'')
         \<and> py_exponent r2 \<noteq> None)"

definition json_number :: "string \<Rightarrow> (pyval \<times> string) option" where
  "json_number s =
     (let num = takeWhile (\<lambda>c. c \<in> set ''-+0123456789.eE'') s;
          rest = dropWhile (\<lambda>c. c \<in> set ''-+0123456789.eE'') s
      in if json_number_ok num then
           (case py_float num of
              None \<Rightarrow> None
            | Some v \<Rightarrow>
                if list_ex (\<lambda>c. c \<in> set ''.eE'') num then Some (PFloat v, rest)
                else Some (PInt (py_int v), rest))
         else None)"

fun json_value :: "nat \<Rightarrow> string \<Rightarrow> (pyval \<times> string) option"
  and json_members :: "nat \<Rightarrow> dict \<Rightarrow> string \<Rightarrow> (pyval \<times> string) option"
  and json_elements :: "nat \<Rightarrow> pyval list \<Rightarrow> string \<Rightarrow> (pyval \<times> string) option"
  where
  "json_value 0 s = None"
| "json_value (Suc n) s =
     (case skip_ws s of
        [] \<Rightarrow> None
      | c # cs \<Rightarrow>
          if c = CHR ''{'' then
            (case skip_ws cs of
               [] \<Rightarrow> None
             | d # ds \<Rightarrow> if d = CHR ''}'' then Some (PDict [], ds) else json_members n [] (d # ds))
          else if c = CHR ''['' then
            (case skip_ws cs of
               [] \<Rightarrow> None
             | d # ds \<Rightarrow> if d = CHR '']'' then Some (PList [], ds) else json_elements n [] (d # ds))
          else if c = CHR 0x22 then map_option (\<lambda>(t, q). (PStr t, q)) (json_string cs)
          else if take 4 (c # cs) = ''true'' then Some (PBool True, drop 4 (c # cs))
          else if take 5 (c # cs) = ''false'' then Some (PBool False, drop 5 (c # cs))
          else if take 4 (c # cs) = ''null'' then Some (PNone, drop 4 (c # cs))
          else json_number (c # cs))"
| "json_members 0 acc s = None"
| "json_members (Suc n) acc s =
     (case skip_ws s of
        [] \<Rightarrow> None
      | c # cs \<Rightarrow>
          if c = CHR 0x22 then
            (case json_string cs of
               None \<Rightarrow> None
             | Some (k, r1) \<Rightarrow>
                 (case skip_ws r1 of
                    [] \<Rightarrow> None
                  | c1 # r2 \<Rightarrow>
                      if c1 = CHR '':'' then
                        (case json_value n r2 of
                           None \<Rightarrow> None
                         | Some (v, r3) \<Rightarrow>
                             (case skip_ws r3 of
                                [] \<Rightarrow> None
                              | c3 # r4 \<Rightarrow>
                                  if c3 = CHR '','' then json_members n (dict_set k v acc) r4
                                  else if c3 = CHR ''}'' then Some (PDict (dict_set k v acc), r4)
                                  else None))
                      else None))
          else None)"
| "json_elements 0 acc s = None"
| "json_elements (Suc n) acc s =
     (case json_value n s of
        None \<Rightarrow> None
      | Some (v, r1) \<Rightarrow>
          (case skip_ws r1 of
             [] \<Rightarrow> None
           | c # r2 \<Rightarrow>
               if c = CHR '','' then json_elements n (acc @ [v]) r2
               else if c = CHR '']'' then Some (PList (acc @ [v]), r2)
               else None))"

definition json_loads :: "string \<Rightarrow> pyval option" where
  "json_loads s =
     (case json_value (Suc (length s)) s of
        None \<Rightarrow> None
      | Some (v, rest) \<Rightarrow> if skip_ws rest = [] then Some v else None)"

text \<open>The decoder restricted to objects, which is what a text in braces can decode to.\<close>

definition json_loads_object :: "string \<Rightarrow> dict option" where
  "json_loads_object s = (case json_loads s of Some (PDict d) \<Rightarrow> Some d | _ \<Rightarrow> None)"

subsection \<open>The strict variant: \<open>save_received_data_3\<close>\<close>

text \<open>
  \<open>float(x)\<close> of a decoded value, \<open>None\<close> where it raises.  A string is parsed after
  stripping; texts that denote no rational number are errors here.
\<close>

definition py_float_of :: "pyval \<Rightarrow> rat option" where
  "py_float_of v =
     (case v of
        PInt i \<Rightarrow> Some (of_int i)
      | PFloat q \<Rightarrow> Some q
      | PBool b \<Rightarrow> Some (if b then 1 else 0)
      | PStr t \<Rightarrow> py_float (py_strip t)
      | _ \<Rightarrow> None)"

text \<open>
  Step 8 of the variant for one key: \<open>None\<close> when \<open>float\<close> raises, which the outer
  \<open>except\<close> of the loop body catches.
\<close>

definition round_key :: "string \<Rightarrow> dict \<Rightarrow> dict option" where
  "round_key k data =
     (case dict_get data k of
        None \<Rightarrow> Some data
      | Some v \<Rightarrow>
          (case py_float_of v of
             None \<Rightarrow> None
           | Some q \<Rightarrow> Some (dict_set k (PFloat (py_round7 q)) data)))"

definition print_key :: "string \<Rightarrow> (pyval \<Rightarrow> log_entry) \<Rightarrow> dict \<Rightarrow> ble_scale \<Rightarrow> ble_scale" where
  "print_key k entry data s =
     (case dict_get data k of None \<Rightarrow> s | Some v \<Rightarrow> print_log (entry v) s)"

text \<open>
  The loop body of \<open>save_received_data_3\<close>.  \<open>loads\<close> stands for \<open>ujson.loads\<close> on a text
  that starts with an opening brace, where a decoded value is an object; \<open>None\<close> is its
  exception.
\<close>

definition process_line_3 ::
  "(string \<Rightarrow> dict option) \<Rightarrow> int \<Rightarrow> string \<Rightarrow> ble_scale \<Rightarrow> ble_scale" where
  "process_line_3 loads attr_handle line s =
     (let json_bytes = py_strip line
      in if json_bytes = [] then s
         else
           (let s1 = print_log (RawBytes json_bytes) s
            in case decode_ignore json_bytes of
                 None \<Rightarrow> print_log DecodeError s1
               | Some d \<Rightarrow>
                   (let t = py_strip (remove_char (CHR 0x0D) (remove_char (CHR 0x00) (remove_bom d)))
                    in case (py_find t ''{'' 0, py_rfind t (CHR ''}'')) of
                         (Some lb, Some rb) \<Rightarrow>
                           if rb \<le> lb then print_log (FragmentIgnored t) s1
                           else
                             (let json_str = take (rb + 1 - lb) (drop lb t);
                                  s2 = print_log (CleanString json_str) s1
                              in case loads json_str of
                                   None \<Rightarrow> print_log (ParseFailed json_str) s2
                                 | Some data \<Rightarrow>
                                     (let s3 = print_key ''longitude'' LongitudeDecoded data
                                                 (print_key ''latitude'' LatitudeDecoded data s2)
                                      in case round_key ''latitude'' data of
                                           None \<Rightarrow> print_log UnexpectedError s3
                                         | Some data1 \<Rightarrow>
                                             (case round_key ''longitude'' data1 of
                                                None \<Rightarrow> print_log UnexpectedError s3
                                              | Some data2 \<Rightarrow>
                                                  if attr_handle = fused_rx_handle s3 then
                                                    (let s4 = print_log (FusedRx json_str) s3
                                                     in s4\<lparr>fused_rx_data :=
                                                            dict_update (fused_rx_data s4) data2\<rparr>)
                                                  else if attr_handle = gps_rx_handle s3 then
                                                    (let s4 = print_log (GpsRx json_str) s3
                                                     in s4\<lparr>gps_rx_data :=
                                                            dict_update (gps_rx_data s4) data2\<rparr>)
                                                  else print_log
                                                         (UnknownHandleData attr_handle data2) s3)))
                       | _ \<Rightarrow> print_log (FragmentIgnored t) s1)))"

lemma rx_buffer_process_line_3: "rx_buffer (process_line_3 loads h line s) = rx_buffer s"
  by (simp add: process_line_3_def print_log_def print_key_def Let_def
      split: option.splits prod.splits)

function rx_loop_3 :: "(string \<Rightarrow> dict option) \<Rightarrow> int \<Rightarrow> ble_scale \<Rightarrow> ble_scale" where
  "rx_loop_3 loads attr_handle s =
     (case split_newline (rx_buffer s) of
        None \<Rightarrow> s
      | Some (json_bytes, rest) \<Rightarrow>
          rx_loop_3 loads attr_handle
            (process_line_3 loads attr_handle json_bytes (s\<lparr>rx_buffer := rest\<rparr>)))"
  by pat_completeness auto
termination
  by (relation "measure (\<lambda>(l, h, s). length (rx_buffer s))")
     (auto simp: rx_buffer_process_line_3 dest: split_newline_shorter)

declare rx_loop_3.simps [simp del]

definition save_received_data_3 ::
  "(string \<Rightarrow> dict option) \<Rightarrow> int \<Rightarrow> string \<Rightarrow> ble_scale \<Rightarrow> ble_scale" where
  "save_received_data_3 loads attr_handle raw_data s =
     rx_loop_3 loads attr_handle (s\<lparr>rx_buffer := rx_buffer s @ raw_data\<rparr>)"

subsection \<open>The two-stage decode of the specification\<close>

text \<open>
  The delta of a cropped line as the specification words it: the strict decode first,
  whose recognised fields are taken as decoded, and the tolerant scan only when the
  strict decode fails.
\<close>

definition strict_fields :: "dict \<Rightarrow> string \<Rightarrow> pyval option" where
  "strict_fields data k =
     (if k \<in> set [''latitude'', ''longitude'', ''altitude'', ''speed'', ''time'', ''accuracy'']
      then dict_get data k else None)"

definition two_stage_delta :: "(string \<Rightarrow> dict option) \<Rightarrow> string \<Rightarrow> string \<Rightarrow> pyval option" where
  "two_stage_delta loads c k =
     (case loads c of Some data \<Rightarrow> strict_fields data k | None \<Rightarrow> scan_fields c k)"

subsection \<open>The strict framer of esp32-s3/unf_s3.py: \<open>save_received_data_1\<close>\<close>

text \<open>
  Version 1.3.0 has the same state and the same single buffer, and decodes each line
  strictly.  \<open>bytes.decode()\<close> raises on bytes that are not UTF-8; \<open>loads\<close> stands for
  \<open>ujson.loads\<close>, which may return any JSON value here, \<open>None\<close> being its exception.
\<close>

definition decode_strict :: "string \<Rightarrow> string option" where
  "decode_strict bs = (if utf8_scan 0 bs = bs then Some bs else None)"

text \<open>\<open>key in data\<close>, \<open>None\<close> where the value is not a container and the test raises.\<close>

definition py_contains :: "pyval \<Rightarrow> string \<Rightarrow> bool option" where
  "py_contains data k =
     (case data of
        PDict d \<Rightarrow> Some (dict_get d k \<noteq> None)
      | PList xs \<Rightarrow> Some (PStr k \<in> set xs)
      | PStr t \<Rightarrow> Some (py_find t k 0 \<noteq> None)
      | _ \<Rightarrow> None)"

text \<open>
  One statement \<open>if key in data: record[key] = data[key]\<close>: the new record, or \<open>None\<close>
  when the statement raises (the test on a value that is no container, the subscript on a
  list or a string).
\<close>

definition copy_key :: "string \<Rightarrow> pyval \<Rightarrow> dict \<Rightarrow> dict option" where
  "copy_key k data rec =
     (case py_contains data k of
        None \<Rightarrow> None
      | Some False \<Rightarrow> Some rec
      | Some True \<Rightarrow>
          (case data of
             PDict d \<Rightarrow> (case dict_get d k of None \<Rightarrow> None | Some v \<Rightarrow> Some (dict_set k v rec))
           | _ \<Rightarrow> None))"

text \<open>
  The statements for a list of keys in order: the record as the last statement that ran
  left it, and whether all of them ran.
\<close>

fun copy_keys :: "string list \<Rightarrow> pyval \<Rightarrow> dict \<Rightarrow> dict \<times> bool" where
  "copy_keys [] data rec = (rec, True)"
| "copy_keys (k # ks) data rec =
     (case copy_key k data rec of None \<Rightarrow> (rec, False) | Some rec' \<Rightarrow> copy_keys ks data rec')"

definition RX_KEYS :: "string list" where
  "RX_KEYS = [''latitude'', ''longitude'', ''altitude'', ''speed'', ''time'', ''accuracy'']"

definition process_line_1 ::
  "(string \<Rightarrow> pyval option) \<Rightarrow> int \<Rightarrow> string \<Rightarrow> ble_scale \<Rightarrow> ble_scale" where
  "process_line_1 loads attr_handle json_bytes s =
     (if json_bytes = [] then s
      else
        (case decode_strict json_bytes of
           None \<Rightarrow> print_log FailedToParse s
         | Some json_str \<Rightarrow>
             (case loads json_str of
                None \<Rightarrow> print_log FailedToParse s
              | Some data \<Rightarrow>
                  if attr_handle = fused_rx_handle s then
                    (case copy_keys RX_KEYS data (fused_rx_data s) of
                       (r, ok) \<Rightarrow>
                         if ok then s\<lparr>fused_rx_data := r\<rparr>
                         else print_log FailedToParse (s\<lparr>fused_rx_data := r\<rparr>))
                  else if attr_handle = gps_rx_handle s then
                    (case copy_keys RX_KEYS data (gps_rx_data s) of
                       (r, ok) \<Rightarrow>
                         if ok then s\<lparr>gps_rx_data := r\<rparr>
                         else print_log FailedToParse (s\<lparr>gps_rx_data := r\<rparr>))
                  else s)))"

lemma rx_buffer_process_line_1: "rx_buffer (process_line_1 loads h line s) = rx_buffer s"
  by (simp add: process_line_1_def print_log_def split: option.splits prod.splits)

function rx_loop_1 :: "(string \<Rightarrow> pyval option) \<Rightarrow> int \<Rightarrow> ble_scale \<Rightarrow> ble_scale" where
  "rx_loop_1 loads attr_handle s =
     (case split_newline (rx_buffer s) of
        None \<Rightarrow> s
      | Some (json_bytes, rest) \<Rightarrow>
          rx_loop_1 loads attr_handle
            (process_line_1 loads attr_handle json_bytes (s\<lparr>rx_buffer := rest\<rparr>)))"
  by pat_completeness auto
termination
  by (relation "measure (\<lambda>(l, h, s). length (rx_buffer s))")
     (auto simp: rx_buffer_process_line_1 dest: split_newline_shorter)

declare rx_loop_1.simps [simp del]

definition save_received_data_1 ::
  "(string \<Rightarrow> pyval option) \<Rightarrow> int \<Rightarrow> string \<Rightarrow> ble_scale \<Rightarrow> ble_scale" where
  "save_received_data_1 loads attr_handle raw_data s =
     rx_loop_1 loads attr_handle (s\<lparr>rx_buffer := rx_buffer s @ raw_data\<rparr>)"

fun save_chunks_1 :: "(string \<Rightarrow> pyval option) \<Rightarrow> int \<Rightarrow> string list \<Rightarrow> ble_scale \<Rightarrow> ble_scale" where
  "save_chunks_1 loads h [] s = s"
| "save_chunks_1 loads h (c # cs) s = save_chunks_1 loads h cs (save_received_data_1 loads h c s)"

text \<open>\<open>clear\<close> of version 1.3.0, which also empties the buffer.\<close>

definition clear_1 :: "ble_scale \<Rightarrow> ble_scale" where
  "clear_1 s = print_log DataReset
     (s\<lparr>fused_rx_data := rx_defaults, gps_rx_data := rx_defaults, tx_data := [],
        rx_buffer := []\<rparr>)"

section \<open>Verified properties: sampling controller\<close>

lemma feed_no_load:
  "\<forall>p\<in>set ws. \<bar>snd p\<bar> < NO_LOAD_THRESHOLD_G \<Longrightarrow>
   no_load_count (feed_weights ws m) = no_load_count m + int (length ws) \<and>
   last_active_ms (feed_weights ws m) = last_active_ms m \<and>
   idle (feed_weights ws m) =
     (idle m \<or> (ws \<noteq> [] \<and> no_load_count m + int (length ws) \<ge> NO_LOAD_STABLE_SAMPLES))"
proof (induction ws arbitrary: m)
  case Nil
  then show ?case by simp
next
  case (Cons p ws)
  obtain now w where p: "p = (now, w)" by (cases p)
  from Cons.prems have w: "\<bar>w\<bar> < NO_LOAD_THRESHOLD_G"
    and rest: "\<forall>p\<in>set ws. \<bar>snd p\<bar> < NO_LOAD_THRESHOLD_G"
    by (simp_all add: p)
  show ?case using Cons.IH[OF rest, of "update_with_weight now w m"] w
    by (cases ws) (auto simp: p update_with_weight_def Let_def)
qed

text \<open>
  Claim C6.  From the initial state, after each of the first \<open>NO_LOAD_STABLE_SAMPLES - 1\<close>
  consecutive samples below the no-load threshold the controller is still not idle, and one
  more such sample makes it idle.  From any state, one sample at or above the threshold
  clears \<open>idle\<close>, resets the counter to 0 and stores the current clock value as the
  last active time.
\<close>

theorem hysteresis:
  assumes "\<forall>p\<in>set ws. \<bar>snd p\<bar> < NO_LOAD_THRESHOLD_G"
    and "int (length ws) = NO_LOAD_STABLE_SAMPLES - 1"
    and "\<bar>w\<bar> < NO_LOAD_THRESHOLD_G"
    and "\<bar>w'\<bar> \<ge> NO_LOAD_THRESHOLD_G"
  shows "(\<forall>k \<le> length ws. \<not> idle (feed_weights (take k ws) (pm_init t0))) \<and>
         idle (update_with_weight now w (feed_weights ws (pm_init t0))) \<and>
         update_with_weight now' w' m =
           m\<lparr>no_load_count := 0, last_active_ms := now', idle := False\<rparr>"
proof -
  have a: "\<not> idle (feed_weights (take k ws) (pm_init t0))" if "k \<le> length ws" for k
  proof -
    have "\<forall>p\<in>set (take k ws). \<bar>snd p\<bar> < NO_LOAD_THRESHOLD_G"
      using assms(1) by (meson in_set_takeD)
    from feed_no_load[OF this, of "pm_init t0"] that assms(2) show ?thesis
      by (auto simp: pm_init_def min_def)
  qed
  have b: "idle (update_with_weight now w (feed_weights ws (pm_init t0)))"
    using feed_no_load[OF assms(1), of "pm_init t0"] assms(2,3)
    by (auto simp: pm_init_def update_with_weight_def Let_def)
  have c: "update_with_weight now' w' m =
      m\<lparr>no_load_count := 0, last_active_ms := now', idle := False\<rparr>"
    using assms(4) by (simp add: update_with_weight_def)
  from a b c show ?thesis by blast
qed

theorem hysteresis_witness:
  "int (length (replicate 19 (0::int, 0::rat))) = NO_LOAD_STABLE_SAMPLES - 1 \<and>
   \<bar>1/2\<bar> < NO_LOAD_THRESHOLD_G \<and> \<bar>- 3\<bar> \<ge> NO_LOAD_THRESHOLD_G \<and>
   \<not> idle (feed_weights (replicate 19 (0, 0)) (pm_init 0)) \<and>
   idle (update_with_weight 7 (1/2) (feed_weights (replicate 19 (0, 0)) (pm_init 0))) \<and>
   update_with_weight 9 (- 3)
       (update_with_weight 7 (1/2) (feed_weights (replicate 19 (0, 0)) (pm_init 0)))
     = \<lparr>no_load_count = 0, last_active_ms = 9, idle = False\<rparr>"
proof -
  have h1: "\<forall>p\<in>set (replicate 19 (0::int, 0::rat)). \<bar>snd p\<bar> < NO_LOAD_THRESHOLD_G"
    by (simp add: NO_LOAD_THRESHOLD_G_def)
  have h2: "int (length (replicate 19 (0::int, 0::rat))) = NO_LOAD_STABLE_SAMPLES - 1"
    by (simp add: NO_LOAD_STABLE_SAMPLES_def)
  have h3: "\<bar>1/2\<bar> < NO_LOAD_THRESHOLD_G" by (simp add: NO_LOAD_THRESHOLD_G_def)
  have h4: "\<bar>- 3\<bar> \<ge> NO_LOAD_THRESHOLD_G" by (simp add: NO_LOAD_THRESHOLD_G_def)
  from hysteresis[OF h1 h2 h3 h4, of 0 7 9
      "update_with_weight 7 (1/2) (feed_weights (replicate 19 (0, 0)) (pm_init 0))"]
  have k: "\<forall>k \<le> length (replicate 19 (0::int, 0::rat)).
             \<not> idle (feed_weights (take k (replicate 19 (0, 0))) (pm_init 0))"
    and i: "idle (update_with_weight 7 (1/2) (feed_weights (replicate 19 (0, 0)) (pm_init 0)))"
    and u: "update_with_weight 9 (- 3)
        (update_with_weight 7 (1/2) (feed_weights (replicate 19 (0, 0)) (pm_init 0)))
      = (update_with_weight 7 (1/2) (feed_weights (replicate 19 (0, 0)) (pm_init 0)))
          \<lparr>no_load_count := 0, last_active_ms := 9, idle := False\<rparr>"
    by blast+
  from k have n: "\<not> idle (feed_weights (replicate 19 (0, 0)) (pm_init 0))"
    by (metis length_replicate order_refl take_all)
  show ?thesis using h2 h3 h4 n i u by simp
qed

section \<open>Verified properties: indicator\<close>

lemma c6_demo_eq:
  "c6_demo = \<lparr>c6_np_ok = True, c6_np_pixel = (0, 0, 0), c6_b = 1/5,
     c6_red = 0, c6_green = 0, c6_blue = 0, c6_low = False,
     c6_connected = False, c6_t_xfer = None, c6_t_err = None,
     c6_p_blue = 1000, c6_w_green = 600, c6_p_green = 200,
     c6_w_red = 2000, c6_p_red = 180\<rparr>"
  by (simp add: c6_demo_def c6_init_def set_rgb_def C_OFF_def scale_rgb_def py_int_def
      pin_set_def Let_def)

lemma s3_demo_eq:
  "s3_demo = \<lparr>s3_np_ok = True, s3_np_pixel = (0, 0, 0), s3_b = 1/5,
     s3_connected = False, s3_t_xfer = None, s3_error_active = False,
     s3_p_blue = 1000, s3_w_green = 600, s3_p_green = 200\<rparr>"
  by (simp add: s3_demo_def s3_init_def s3_set_def C_OFF_def scale_rgb_def py_int_def Let_def)

lemma set_rgb_logical [simp]:
  "c6_connected (set_rgb c f s) = c6_connected s"
  "c6_t_xfer (set_rgb c f s) = c6_t_xfer s"
  "c6_t_err (set_rgb c f s) = c6_t_err s"
  "c6_low (set_rgb c f s) = c6_low s"
  "c6_b (set_rgb c f s) = c6_b s"
  "c6_p_blue (set_rgb c f s) = c6_p_blue s"
  "c6_w_green (set_rgb c f s) = c6_w_green s"
  "c6_p_green (set_rgb c f s) = c6_p_green s"
  "c6_w_red (set_rgb c f s) = c6_w_red s"
  "c6_p_red (set_rgb c f s) = c6_p_red s"
  by (simp_all add: set_rgb_def Let_def split: prod.splits)

lemma set_rgb_np [simp]:
  "c6_np_ok (set_rgb c f s) = (c6_np_ok s \<and> \<not> f)"
  "c6_np_pixel (set_rgb c f s) =
     (if c6_np_ok s \<and> \<not> f then scale_rgb c (c6_b s) else c6_np_pixel s)"
  by (simp_all add: set_rgb_def Let_def split: prod.splits)

lemma set_rgb_pins [simp]: "pins_show (set_rgb c f s) c"
  by (simp add: set_rgb_def pins_show_def pin_set_def pin_level_def Let_def split: prod.splits)

text \<open>\<open>update\<close> writes the colour of the resolution order to the outputs.\<close>

lemma c6_update_resolve: "c6_update now f s = set_rgb (c6_resolve now s) f s"
  by (simp add: c6_update_def c6_resolve_def)

lemma c6_step_np:
  "\<not> c6_np_ok s \<Longrightarrow> \<not> c6_np_ok (c6_step e s) \<and> c6_np_pixel (c6_step e s) = c6_np_pixel s"
  by (cases e)
     (simp_all add: c6_on_connect_def c6_on_disconnect_def c6_on_transfer_def c6_on_error_def
        c6_off_all_def c6_update_resolve)

lemma c6_run_np:
  "\<not> c6_np_ok s \<Longrightarrow> \<not> c6_np_ok (c6_run es s) \<and> c6_np_pixel (c6_run es s) = c6_np_pixel s"
proof (induction es arbitrary: s)
  case Nil
  then show ?case by simp
next
  case (Cons e es)
  from c6_step_np[OF Cons.prems, of e] Cons.IH[of "c6_step e s"] show ?case by simp
qed

text \<open>
  Claim C7, as amended.  After \<open>on_connect\<close> and \<open>on_error\<close>, whatever calls follow
  (any number of \<open>on_transfer\<close> among them), an \<open>update\<close> at a time inside the error
  window of the combo manager writes the error blink to both outputs: red in the on phase
  of the red blink period, off in its off phase, never the green of a transfer pulse or
  the blue of the baseline.  In the sticky manager an \<open>update\<close> while the error flag is
  set writes solid red.
\<close>

theorem error_dominates:
  assumes "win now (c6_t_err (c6_run es (c6_on_error te (c6_on_connect f0 s))))
                   (c6_w_red (c6_run es (c6_on_error te (c6_on_connect f0 s))))"
      and "s3_error_active t"
  shows "c6_update now f (c6_run es (c6_on_error te (c6_on_connect f0 s))) =
           set_rgb (if blink now (c6_p_red (c6_run es (c6_on_error te (c6_on_connect f0 s)))) \<noteq> 0
                    then C_R else C_OFF) f (c6_run es (c6_on_error te (c6_on_connect f0 s))) \<and>
         pins_show (c6_update now f (c6_run es (c6_on_error te (c6_on_connect f0 s))))
           (if blink now (c6_p_red (c6_run es (c6_on_error te (c6_on_connect f0 s)))) \<noteq> 0
            then C_R else C_OFF) \<and>
         s3_update now f t = s3_set C_R f t"
  using assms by (simp add: c6_update_def s3_update_def)

theorem error_dominates_witness:
  "win 1170 (c6_t_err (c6_run [Transfer 1050] (c6_on_error 1000 (c6_on_connect False c6_demo))))
            (c6_w_red (c6_run [Transfer 1050] (c6_on_error 1000 (c6_on_connect False c6_demo)))) \<and>
   s3_error_active (s3_on_transfer 1050 (s3_on_error False (s3_on_connect False s3_demo))) \<and>
   c6_red (c6_update 1170 False
     (c6_run [Transfer 1050] (c6_on_error 1000 (c6_on_connect False c6_demo)))) = 1 \<and>
   c6_green (c6_update 1170 False
     (c6_run [Transfer 1050] (c6_on_error 1000 (c6_on_connect False c6_demo)))) = 0 \<and>
   c6_blue (c6_update 1170 False
     (c6_run [Transfer 1050] (c6_on_error 1000 (c6_on_connect False c6_demo)))) = 0 \<and>
   s3_np_pixel (s3_update 1170 False
     (s3_on_transfer 1050 (s3_on_error False (s3_on_connect False s3_demo)))) = (51, 0, 0)"
proof -
  have h1: "win 1170
      (c6_t_err (c6_run [Transfer 1050] (c6_on_error 1000 (c6_on_connect False c6_demo))))
      (c6_w_red (c6_run [Transfer 1050] (c6_on_error 1000 (c6_on_connect False c6_demo))))"
    by (simp add: c6_demo_eq c6_on_transfer_def c6_on_error_def c6_on_connect_def set_rgb_def
        win_def ticks_diff_def TICKS_PERIOD_def C_B_def Let_def)
  have h2: "s3_error_active (s3_on_transfer 1050 (s3_on_error False (s3_on_connect False s3_demo)))"
    by (simp add: s3_demo_eq s3_on_transfer_def s3_on_error_def s3_on_connect_def s3_set_def
        Let_def)
  have b: "blink 1170 180 = 1" by (simp add: blink_def)
  from error_dominates[OF h1 h2, of False]
  show ?thesis using h1 h2
    by (simp add: c6_demo_eq s3_demo_eq c6_on_transfer_def c6_on_error_def c6_on_connect_def
        s3_on_transfer_def s3_on_error_def s3_on_connect_def s3_set_def set_rgb_def b
        C_B_def C_R_def pin_set_def scale_rgb_def py_int_def Let_def)
qed

text \<open>
  Claim C7 as stated fails in the combo manager: connect, an error at 1000 ms, a transfer
  at 1050 ms, and an \<open>update\<close> at 1080 ms, inside the 2000 ms error window, falls in the
  off phase of the 180 ms red blink and writes off, not red, to the pins and the pixel.
\<close>

theorem error_colour_counterexample:
  "win 1080 (c6_t_err (c6_on_transfer 1050 (c6_on_error 1000 (c6_on_connect False c6_demo))))
            (c6_w_red (c6_on_transfer 1050 (c6_on_error 1000 (c6_on_connect False c6_demo)))) \<and>
   c6_red (c6_update 1080 False
     (c6_on_transfer 1050 (c6_on_error 1000 (c6_on_connect False c6_demo)))) = 0 \<and>
   c6_np_pixel (c6_update 1080 False
     (c6_on_transfer 1050 (c6_on_error 1000 (c6_on_connect False c6_demo)))) = (0, 0, 0) \<and>
   c6_update 1080 False (c6_on_transfer 1050 (c6_on_error 1000 (c6_on_connect False c6_demo)))
     \<noteq> set_rgb C_R False
          (c6_on_transfer 1050 (c6_on_error 1000 (c6_on_connect False c6_demo)))"
proof -
  have b: "blink 1080 180 = 0" by (simp add: blink_def)
  show ?thesis
    by (simp add: c6_demo_eq c6_on_transfer_def c6_on_error_def c6_on_connect_def c6_update_def
        set_rgb_def win_def ticks_diff_def TICKS_PERIOD_def b C_B_def C_R_def C_OFF_def
        pin_set_def scale_rgb_def py_int_def Let_def)
qed

lemma s3_set_np [simp]:
  "s3_np_ok (s3_set c f s) = (s3_np_ok s \<and> \<not> f)"
  "s3_np_pixel (s3_set c f s) =
     (if s3_np_ok s \<and> \<not> f then scale_rgb c (s3_b s) else s3_np_pixel s)"
  by (simp_all add: s3_set_def)

lemma s3_step_np:
  "\<not> s3_np_ok s \<Longrightarrow> \<not> s3_np_ok (s3_step e s) \<and> s3_np_pixel (s3_step e s) = s3_np_pixel s"
  by (cases e)
     (simp_all add: s3_on_connect_def s3_on_disconnect_def s3_on_transfer_def s3_on_error_def
        s3_off_all_def s3_update_def Let_def)

lemma s3_run_np:
  "\<not> s3_np_ok s \<Longrightarrow> \<not> s3_np_ok (s3_run es s) \<and> s3_np_pixel (s3_run es s) = s3_np_pixel s"
proof (induction es arbitrary: s)
  case Nil
  then show ?case by simp
next
  case (Cons e es)
  from s3_step_np[OF Cons.prems, of e] Cons.IH[of "s3_step e s"] show ?case by simp
qed

text \<open>
  Claim C8.  When a NeoPixel write of the combo manager raises, that call still writes its
  colour to the three pins and marks only the NeoPixel degraded.  Whatever calls follow,
  the NeoPixel stays degraded and is never written again, and every later \<open>update\<close>
  resolves the colour by the usual order and writes it to the pins.  In the manager that
  has the NeoPixel alone, a write that raises degrades it in the same way for every call
  that follows.
\<close>

theorem degraded_output_isolation:
  assumes "c6_np_ok s"
  shows "\<not> c6_np_ok (set_rgb c True s) \<and> pins_show (set_rgb c True s) c \<and>
         \<not> c6_np_ok (c6_run es (set_rgb c True s)) \<and>
         c6_np_pixel (c6_run es (set_rgb c True s)) = c6_np_pixel s \<and>
         c6_update now f (c6_run es (set_rgb c True s)) =
           set_rgb (c6_resolve now (c6_run es (set_rgb c True s))) f
             (c6_run es (set_rgb c True s)) \<and>
         pins_show (c6_update now f (c6_run es (set_rgb c True s)))
           (c6_resolve now (c6_run es (set_rgb c True s))) \<and>
         \<not> s3_np_ok (s3_run es (s3_set c True t)) \<and>
         s3_np_pixel (s3_run es (s3_set c True t)) = s3_np_pixel t"
proof -
  have n: "\<not> c6_np_ok (set_rgb c True s)" by simp
  have m: "\<not> s3_np_ok (s3_set c True t)" by simp
  have p: "s3_np_pixel (s3_set c True t) = s3_np_pixel t" by simp
  from c6_run_np[OF n, of es] s3_run_np[OF m, of es] p show ?thesis
    by (simp add: c6_update_resolve)
qed

theorem degraded_output_isolation_witness:
  "c6_np_ok (c6_demo\<lparr>c6_connected := True\<rparr>) \<and>
   c6_update 700 False (c6_run [Transfer 10] (set_rgb C_B True (c6_demo\<lparr>c6_connected := True\<rparr>)))
    = \<lparr>c6_np_ok = False, c6_np_pixel = (0, 0, 0), c6_b = 1/5,
       c6_red = 0, c6_green = 0, c6_blue = 1, c6_low = False,
       c6_connected = True, c6_t_xfer = Some 10, c6_t_err = None,
       c6_p_blue = 1000, c6_w_green = 600, c6_p_green = 200,
       c6_w_red = 2000, c6_p_red = 180\<rparr>"
  using degraded_output_isolation
    [of "c6_demo\<lparr>c6_connected := True\<rparr>" C_B "[Transfer 10]" 700 False]
  by (simp add: c6_demo_eq c6_resolve_def win_def ticks_diff_def TICKS_PERIOD_def set_rgb_def
      c6_on_transfer_def C_B_def pin_set_def Let_def)

lemma s3_set_logical [simp]:
  "s3_error_active (s3_set c f s) = s3_error_active s"
  "s3_connected (s3_set c f s) = s3_connected s"
  "s3_t_xfer (s3_set c f s) = s3_t_xfer s"
  "s3_b (s3_set c f s) = s3_b s"
  "s3_p_blue (s3_set c f s) = s3_p_blue s"
  "s3_w_green (s3_set c f s) = s3_w_green s"
  "s3_p_green (s3_set c f s) = s3_p_green s"
  by (simp_all add: s3_set_def)

lemma s3_step_error: "s3_error_active s \<Longrightarrow> s3_error_active (s3_step e s)"
  by (cases e)
     (simp_all add: s3_on_connect_def s3_on_disconnect_def s3_on_transfer_def s3_on_error_def
        s3_off_all_def s3_update_def Let_def)

lemma s3_run_error: "s3_error_active s \<Longrightarrow> s3_error_active (s3_run es s)"
  by (induction es arbitrary: s) (simp_all add: s3_step_error)

lemma s3_normal_colour_cases:
  "s3_normal_colour now s = C_B \<or> s3_normal_colour now s = C_G \<or> s3_normal_colour now s = C_OFF"
  by (simp add: s3_normal_colour_def)

text \<open>
  Claim C10.  In the sticky manager, after \<open>on_error\<close> the error flag stays set through
  every sequence of \<open>on_connect\<close>, \<open>on_disconnect\<close>, \<open>on_transfer\<close>, \<open>on_error\<close>,
  \<open>off_all\<close> and \<open>update\<close> calls at any clock values, and an \<open>update\<close> then writes solid
  red (the pixel latches the scaled red unless the NeoPixel is degraded or the write
  raises).  \<open>clear_error\<close> clears the flag and writes the colour of the normal
  resolution, which is blue, green or off.
\<close>

theorem sticky_error_persists:
  "s3_error_active (s3_run es (s3_on_error f0 s)) \<and>
   s3_update now f (s3_run es (s3_on_error f0 s)) = s3_set C_R f (s3_run es (s3_on_error f0 s)) \<and>
   s3_np_pixel (s3_update now f (s3_run es (s3_on_error f0 s))) =
     (if s3_np_ok (s3_run es (s3_on_error f0 s)) \<and> \<not> f
      then scale_rgb C_R (s3_b (s3_run es (s3_on_error f0 s)))
      else s3_np_pixel (s3_run es (s3_on_error f0 s))) \<and>
   \<not> s3_error_active (s3_clear_error now f (s3_run es (s3_on_error f0 s))) \<and>
   s3_clear_error now f (s3_run es (s3_on_error f0 s)) =
     s3_set (s3_normal_colour now (s3_run es (s3_on_error f0 s))) f
       ((s3_run es (s3_on_error f0 s))\<lparr>s3_error_active := False\<rparr>) \<and>
   s3_normal_colour now (s3_run es (s3_on_error f0 s)) \<in> {C_B, C_G, C_OFF}"
proof -
  have e: "s3_error_active (s3_run es (s3_on_error f0 s))"
    by (rule s3_run_error) (simp add: s3_on_error_def)
  show ?thesis using e s3_normal_colour_cases[of now "s3_run es (s3_on_error f0 s)"]
    by (simp add: s3_update_def s3_clear_error_def s3_normal_colour_def s3_set_def)
qed

section \<open>Verified properties: responder and framer\<close>

text \<open>
  Claim C9.  With weight 12.5 kg and \<open>idle\<close> false, the response for the weight
  characteristic is the dictionary with exactly the keys \<open>from\<close>, \<open>weight\<close>, \<open>time\<close>,
  \<open>latitude\<close>, \<open>longitude\<close>, \<open>speed\<close>, \<open>altitude\<close>, \<open>accuracy\<close>, \<open>idle\<close>, where
  \<open>from\<close> is \<open>"weight"\<close>, \<open>weight\<close> is 12.5, \<open>idle\<close> is false and the six location fields
  have their zero defaults, whatever the stored fused and GPS records hold; when the write
  does not raise, this dictionary is the value written to the characteristic.
\<close>

theorem weight_round_trip:
  "tx_data (send_tx_as_json_response (weight_tx_handle s) fails
      (s\<lparr>weight_tx := 25/2, pm := (pm s)\<lparr>idle := False\<rparr>\<rparr>)) =
     [(''from'', PStr ''weight''), (''weight'', PFloat (25/2)), (''time'', PInt 0),
      (''latitude'', PFloat 0), (''longitude'', PFloat 0), (''speed'', PFloat 0),
      (''altitude'', PFloat 0), (''accuracy'', PFloat 0), (''idle'', PBool False)] \<and>
   map fst (tx_data (send_tx_as_json_response (weight_tx_handle s) fails
      (s\<lparr>weight_tx := 25/2, pm := (pm s)\<lparr>idle := False\<rparr>\<rparr>))) =
     [''from'', ''weight'', ''time'', ''latitude'', ''longitude'', ''speed'', ''altitude'',
      ''accuracy'', ''idle''] \<and>
   map_of (gatts (send_tx_as_json_response (weight_tx_handle s) False
      (s\<lparr>weight_tx := 25/2, pm := (pm s)\<lparr>idle := False\<rparr>\<rparr>))) (weight_tx_handle s) =
     Some [(''from'', PStr ''weight''), (''weight'', PFloat (25/2)), (''time'', PInt 0),
      (''latitude'', PFloat 0), (''longitude'', PFloat 0), (''speed'', PFloat 0),
      (''altitude'', PFloat 0), (''accuracy'', PFloat 0), (''idle'', PBool False)]"
  by (simp add: send_tx_as_json_response_def gatts_write_tx_def dict_set_def print_log_def
      Let_def update_Some_unfold)

subsection \<open>Chunking\<close>

lemma process_line_buffer:
  "process_line h line (s\<lparr>rx_buffer := b\<rparr>) = (process_line h line s)\<lparr>rx_buffer := b\<rparr>"
  by (simp add: process_line_def apply_line_def print_log_def Let_def
      split: option.splits prod.splits)

lemma split_newline_append:
  "split_newline buf = Some (line, rest) \<Longrightarrow>
   split_newline (buf @ ys) = Some (line, rest @ ys)"
  by (auto simp: split_newline_def takeWhile_append1 dropWhile_append1 split: if_splits)

text \<open>
  Bytes appended to the buffer before the loop runs give the same state as running the
  loop first and appending them to what it left.
\<close>

lemma rx_loop_append:
  "rx_loop h (s\<lparr>rx_buffer := rx_buffer s @ ys\<rparr>) =
   rx_loop h ((rx_loop h s)\<lparr>rx_buffer := rx_buffer (rx_loop h s) @ ys\<rparr>)"
proof (induction h s rule: rx_loop.induct)
  case (1 h s)
  show ?case
  proof (cases "split_newline (rx_buffer s)")
    case None
    then have "rx_loop h s = s" by (subst rx_loop.simps) simp
    then show ?thesis by simp
  next
    case (Some p)
    obtain line rest where p: "p = (line, rest)" by (cases p)
    let ?s1 = "process_line h line (s\<lparr>rx_buffer := rest\<rparr>)"
    have b1: "rx_buffer ?s1 = rest" by (simp add: rx_buffer_process_line)
    have l: "rx_loop h s = rx_loop h ?s1"
      using Some p by (subst rx_loop.simps) simp
    have "rx_loop h (s\<lparr>rx_buffer := rx_buffer s @ ys\<rparr>) =
          rx_loop h (process_line h line (s\<lparr>rx_buffer := rest @ ys\<rparr>))"
      using split_newline_append[OF Some[unfolded p], of ys]
      by (subst rx_loop.simps) simp
    also have "process_line h line (s\<lparr>rx_buffer := rest @ ys\<rparr>) =
          ?s1\<lparr>rx_buffer := rx_buffer ?s1 @ ys\<rparr>"
      by (simp add: process_line_buffer)
    also have "rx_loop h (?s1\<lparr>rx_buffer := rx_buffer ?s1 @ ys\<rparr>) =
          rx_loop h ((rx_loop h ?s1)\<lparr>rx_buffer := rx_buffer (rx_loop h ?s1) @ ys\<rparr>)"
      using "1.IH"[OF Some[unfolded p] refl] by simp
    finally show ?thesis using l by simp
  qed
qed

lemma save_append:
  "save_received_data h (a @ b) s = save_received_data h b (save_received_data h a s)"
  unfolding save_received_data_def
  using rx_loop_append[of h "s\<lparr>rx_buffer := rx_buffer s @ a\<rparr>" b] by simp

subsection \<open>One line at a time\<close>

lemma dict_get_store_opt:
  "dict_get (store_opt k v d) = (case v of None \<Rightarrow> dict_get d | Some x \<Rightarrow> (dict_get d)(k \<mapsto> x))"
  by (auto simp: dict_get_def store_opt_def dict_set_def update_conv' split: option.splits)

lemma dict_get_merge_fields:
  "dict_get (merge_fields (map_option py_round7 (extract_number c ''latitude''))
       (map_option py_round7 (extract_number c ''longitude''))
       (extract_number c ''altitude'') (extract_number c ''speed'')
       (extract_number c ''time'') (extract_number c ''accuracy'') d) =
   dict_get d ++ scan_fields c"
  by (rule ext)
     (simp add: merge_fields_def dict_get_store_opt scan_fields_def map_add_def
        split: option.splits)

lemma apply_line_fused:
  "dict_get (fused_rx_data (apply_line h c s)) =
     (if h = fused_rx_handle s then dict_get (fused_rx_data s) ++ scan_fields c
      else dict_get (fused_rx_data s))"
  by (simp add: apply_line_def print_log_def Let_def dict_get_merge_fields)

lemma apply_line_gps:
  "dict_get (gps_rx_data (apply_line h c s)) =
     (if h \<noteq> fused_rx_handle s \<and> h = gps_rx_handle s
      then dict_get (gps_rx_data s) ++ scan_fields c
      else dict_get (gps_rx_data s))"
  by (simp add: apply_line_def print_log_def Let_def dict_get_merge_fields)

lemma line_delta_None: "cropped line = None \<Longrightarrow> line_delta line = Map.empty"
  by (rule ext) (simp add: line_delta_def)

lemma line_delta_Some: "cropped line = Some c \<Longrightarrow> line_delta line = scan_fields c"
  by (rule ext) (simp add: line_delta_def)

lemma cleaned_unfold:
  "py_strip (remove_char (CHR 0x0D) (remove_char (CHR 0x00) (remove_bom (utf8_scan 0 (py_strip line)))))
     = cleaned line"
  by (simp add: cleaned_def decode_ignore_def)

lemma cleaned_empty:
  assumes "py_strip line = []"
  shows "cleaned line = []"
proof -
  have "cleaned line =
      py_strip (remove_char (CHR 0x0D) (remove_char (CHR 0x00) (remove_bom (utf8_scan 0 []))))"
    by (simp add: cleaned_def decode_ignore_def assms)
  then show ?thesis by (simp add: py_strip_def remove_char_def)
qed

lemma cropped_SomeD:
  assumes "cropped line = Some c"
  shows "\<exists>lb rb. py_find (cleaned line) ''{'' 0 = Some lb \<and> py_rfind (cleaned line) (CHR ''}'') = Some rb
           \<and> lb < rb \<and> c = take (rb + 1 - lb) (drop lb (cleaned line))"
  using assms by (auto simp: cropped_def Let_def split: option.splits if_splits)

lemma cropped_nonempty:
  assumes "cropped line = Some c"
  shows "cleaned line \<noteq> []" and "py_strip line \<noteq> []"
proof -
  from cropped_SomeD[OF assms] obtain lb where "py_find (cleaned line) ''{'' 0 = Some lb"
    by blast
  then show "cleaned line \<noteq> []" by (auto simp: py_find_def)
  then show "py_strip line \<noteq> []" using cleaned_empty by blast
qed

lemma process_line_cropped:
  assumes "cropped line = Some c"
  shows "process_line h line s =
     apply_line h c (print_log (CleanString c) (print_log (RawBytes (py_strip line)) s))"
proof -
  from cropped_SomeD[OF assms] obtain lb rb where
    f: "py_find (cleaned line) ''{'' 0 = Some lb" and r: "py_rfind (cleaned line) (CHR ''}'') = Some rb"
    and lt: "lb < rb" and c: "c = take (rb + 1 - lb) (drop lb (cleaned line))"
    by blast
  from cropped_nonempty[OF assms] have ne: "cleaned line \<noteq> []" "py_strip line \<noteq> []" .
  show ?thesis
    unfolding process_line_def decode_ignore_def
    using f r lt ne by (simp add: Let_def cleaned_unfold c)
qed

lemma process_line_fragment:
  assumes "cropped line = None"
  shows "fused_rx_data (process_line h line s) = fused_rx_data s \<and>
         gps_rx_data (process_line h line s) = gps_rx_data s"
proof -
  have "\<not> (\<exists>lb rb. py_find (cleaned line) ''{'' 0 = Some lb \<and>
            py_rfind (cleaned line) (CHR ''}'') = Some rb \<and> lb < rb)"
    using assms by (auto simp: cropped_def Let_def split: option.splits if_splits)
  then show ?thesis
    unfolding process_line_def decode_ignore_def
    by (auto simp: Let_def cleaned_unfold print_log_def split: option.splits)
qed

lemma process_line_fused:
  "dict_get (fused_rx_data (process_line h line s)) =
     (if h = fused_rx_handle s then dict_get (fused_rx_data s) ++ line_delta line
      else dict_get (fused_rx_data s))"
proof (cases "cropped line")
  case None
  then show ?thesis by (simp add: process_line_fragment line_delta_None)
next
  case (Some c)
  then show ?thesis
    by (simp add: process_line_cropped apply_line_fused line_delta_Some print_log_def)
qed

lemma process_line_gps:
  "dict_get (gps_rx_data (process_line h line s)) =
     (if h \<noteq> fused_rx_handle s \<and> h = gps_rx_handle s
      then dict_get (gps_rx_data s) ++ line_delta line
      else dict_get (gps_rx_data s))"
proof (cases "cropped line")
  case None
  then show ?thesis by (simp add: process_line_fragment line_delta_None)
next
  case (Some c)
  then show ?thesis
    by (simp add: process_line_cropped apply_line_gps line_delta_Some print_log_def)
qed

lemma split_newline_line:
  "CHR 0x0A \<notin> set line \<Longrightarrow> split_newline (line @ CHR 0x0A # rest) = Some (line, rest)"
  by (induction line) (auto simp: split_newline_def)

lemma split_newline_none: "CHR 0x0A \<notin> set buf \<Longrightarrow> split_newline buf = None"
  by (simp add: split_newline_def)

lemma rx_loop_no_newline: "CHR 0x0A \<notin> set (rx_buffer s) \<Longrightarrow> rx_loop h s = s"
  by (subst rx_loop.simps) (simp add: split_newline_none)

lemma save_one_line:
  assumes "rx_buffer s = []" and "CHR 0x0A \<notin> set line"
  shows "save_received_data h (line @ [CHR 0x0A]) s = process_line h line s"
proof -
  have s: "s\<lparr>rx_buffer := []\<rparr> = s" using assms(1) by (cases s) simp
  have "save_received_data h (line @ [CHR 0x0A]) s =
        rx_loop h (process_line h line (s\<lparr>rx_buffer := []\<rparr>))"
    unfolding save_received_data_def
    using split_newline_line[OF assms(2), of "[]"] assms(1)
    by (subst rx_loop.simps) simp
  also have "\<dots> = process_line h line s"
    unfolding s by (rule rx_loop_no_newline) (simp add: rx_buffer_process_line assms(1))
  finally show ?thesis .
qed

lemma find_at_char_None: "find_at [c] xs i = None \<longleftrightarrow> c \<notin> set xs"
  by (induction xs arbitrary: i) auto

lemma find_at_char_Some:
  "find_at [c] xs i = Some k \<Longrightarrow>
   \<exists>m. k = i + m \<and> m < length xs \<and> xs ! m = c \<and> (\<forall>n<m. xs ! n \<noteq> c)"
proof (induction xs arbitrary: i)
  case Nil
  then show ?case by simp
next
  case (Cons x xs)
  show ?case
  proof (cases "x = c")
    case True
    with Cons.prems have "k = i" by simp
    with True show ?thesis by (intro exI[of _ 0]) simp
  next
    case False
    with Cons.prems have "find_at [c] xs (Suc i) = Some k" by simp
    from Cons.IH[OF this] obtain m where
      m: "k = Suc i + m" "m < length xs" "xs ! m = c" "\<forall>n<m. xs ! n \<noteq> c" by blast
    have "\<forall>n<Suc m. (x # xs) ! n \<noteq> c"
      using False m(4) by (auto simp: nth_Cons split: nat.splits)
    with m show ?thesis by (intro exI[of _ "Suc m"]) simp
  qed
qed

lemma py_find_char:
  "py_find t [c] 0 = None \<longleftrightarrow> c \<notin> set t"
  "py_find t [c] 0 = Some lb \<Longrightarrow> lb < length t \<and> t ! lb = c \<and> (\<forall>n<lb. t ! n \<noteq> c)"
  using find_at_char_Some[of c t 0 lb] by (auto simp: py_find_def find_at_char_None)

lemma py_rfind_char:
  "py_rfind t c = None \<longleftrightarrow> c \<notin> set t"
  "py_rfind t c = Some rb \<Longrightarrow> rb < length t \<and> t ! rb = c \<and> (\<forall>n. rb < n \<and> n < length t \<longrightarrow> t ! n \<noteq> c)"
proof -
  show "py_rfind t c = None \<longleftrightarrow> c \<notin> set t"
    using find_at_char_None[of c "rev t" 0] by (auto simp: py_rfind_def split: option.splits)
  assume "py_rfind t c = Some rb"
  then obtain j where j: "find_at [c] (rev t) 0 = Some j" and rb: "rb = length t - 1 - j"
    by (auto simp: py_rfind_def split: option.splits)
  from find_at_char_Some[OF j] have jl: "j < length t" and jc: "rev t ! j = c"
    and jm: "\<forall>n<j. rev t ! n \<noteq> c" by auto
  have 1: "rb < length t" using jl rb by simp
  have 2: "t ! rb = c" using jc jl rb by (simp add: rev_nth)
  have 3: "t ! n \<noteq> c" if "rb < n" "n < length t" for n
  proof -
    have "length t - 1 - n < j" using that rb jl by simp
    with jm have "rev t ! (length t - 1 - n) \<noteq> c" by blast
    moreover have "rev t ! (length t - 1 - n) = t ! n"
      using that by (simp add: rev_nth) 
    ultimately show ?thesis by simp
  qed
  from 1 2 3 show "rb < length t \<and> t ! rb = c \<and> (\<forall>n. rb < n \<and> n < length t \<longrightarrow> t ! n \<noteq> c)"
    by blast
qed

text \<open>
  A line is a fragment exactly when its cleaned text has no opening brace with a closing
  brace somewhere after it.
\<close>

lemma cropped_None_iff:
  "cropped line = None \<longleftrightarrow>
   \<not> (\<exists>i j. i < j \<and> j < length (cleaned line) \<and> cleaned line ! i = CHR ''{''
             \<and> cleaned line ! j = CHR ''}'')"
proof
  assume n: "cropped line = None"
  show "\<not> (\<exists>i j. i < j \<and> j < length (cleaned line) \<and> cleaned line ! i = CHR ''{''
             \<and> cleaned line ! j = CHR ''}'')"
  proof
    assume "\<exists>i j. i < j \<and> j < length (cleaned line) \<and> cleaned line ! i = CHR ''{''
             \<and> cleaned line ! j = CHR ''}''"
    then obtain i j where ij: "i < j" "j < length (cleaned line)"
      "cleaned line ! i = CHR ''{''" "cleaned line ! j = CHR ''}''" by blast
    then have "CHR ''{'' \<in> set (cleaned line)" "CHR ''}'' \<in> set (cleaned line)"
      by (metis nth_mem order_less_trans)+
    then obtain lb rb where lb: "py_find (cleaned line) ''{'' 0 = Some lb"
      and rb: "py_rfind (cleaned line) (CHR ''}'') = Some rb"
      using py_find_char(1)[of "cleaned line" "CHR ''{''"] py_rfind_char(1)[of "cleaned line" "CHR ''}''"]
      by auto
    from n lb rb have le: "rb \<le> lb" by (auto simp: cropped_def Let_def split: if_splits)
    from py_find_char(2)[OF lb] ij have "lb \<le> i" by (meson not_less)
    moreover from py_rfind_char(2)[OF rb] ij have "j \<le> rb" by (meson not_less)
    ultimately show False using le ij(1) by simp
  qed
next
  assume a: "\<not> (\<exists>i j. i < j \<and> j < length (cleaned line) \<and> cleaned line ! i = CHR ''{''
             \<and> cleaned line ! j = CHR ''}'')"
  show "cropped line = None"
  proof (rule ccontr)
    assume "cropped line \<noteq> None"
    then obtain c where "cropped line = Some c" by auto
    from cropped_SomeD[OF this] obtain lb rb where
      lb: "py_find (cleaned line) ''{'' 0 = Some lb" and rb: "py_rfind (cleaned line) (CHR ''}'') = Some rb"
      and lt: "lb < rb" by blast
    from py_find_char(2)[OF lb] py_rfind_char(2)[OF rb] lt a show False by blast
  qed
qed

subsection \<open>One buffer, two records\<close>

lemma process_line_handles [simp]:
  "fused_rx_handle (process_line h line s) = fused_rx_handle s"
  "gps_rx_handle (process_line h line s) = gps_rx_handle s"
  by (simp_all add: process_line_def apply_line_def print_log_def Let_def
      split: option.splits prod.splits)

lemma apply_line_other:
  "h = fused_rx_handle s \<Longrightarrow> gps_rx_data (apply_line h c s) = gps_rx_data s"
  "h \<noteq> fused_rx_handle s \<Longrightarrow> fused_rx_data (apply_line h c s) = fused_rx_data s"
  by (simp_all add: apply_line_def print_log_def Let_def)

lemma process_line_other:
  "h = fused_rx_handle s \<Longrightarrow> gps_rx_data (process_line h line s) = gps_rx_data s"
  "h \<noteq> fused_rx_handle s \<Longrightarrow> fused_rx_data (process_line h line s) = fused_rx_data s"
  by (cases "cropped line";
      simp add: process_line_fragment process_line_cropped apply_line_other print_log_def)+

lemma rx_loop_gps_kept:
  "h = fused_rx_handle s \<Longrightarrow> gps_rx_data (rx_loop h s) = gps_rx_data s"
proof (induction h s rule: rx_loop.induct)
  case (1 h s)
  show ?case
  proof (cases "split_newline (rx_buffer s)")
    case None
    then have e: "rx_loop h s = s" by (subst rx_loop.simps) simp
    show ?thesis unfolding e by simp
  next
    case (Some p)
    obtain line rest where p: "p = (line, rest)" by (cases p)
    let ?s1 = "process_line h line (s\<lparr>rx_buffer := rest\<rparr>)"
    have l: "rx_loop h s = rx_loop h ?s1"
      using Some p by (subst rx_loop.simps) simp
    have h1: "h = fused_rx_handle ?s1" using "1.prems" by simp
    have "gps_rx_data (rx_loop h ?s1) = gps_rx_data ?s1"
      by (rule "1.IH"[OF Some[unfolded p] refl h1])
    also have "\<dots> = gps_rx_data s"
      using process_line_other(1)[of h "s\<lparr>rx_buffer := rest\<rparr>" line] "1.prems" by simp
    finally show ?thesis unfolding l .
  qed
qed

lemma rx_loop_fused_kept:
  "h \<noteq> fused_rx_handle s \<Longrightarrow> fused_rx_data (rx_loop h s) = fused_rx_data s"
proof (induction h s rule: rx_loop.induct)
  case (1 h s)
  show ?case
  proof (cases "split_newline (rx_buffer s)")
    case None
    then have e: "rx_loop h s = s" by (subst rx_loop.simps) simp
    show ?thesis unfolding e by simp
  next
    case (Some p)
    obtain line rest where p: "p = (line, rest)" by (cases p)
    let ?s1 = "process_line h line (s\<lparr>rx_buffer := rest\<rparr>)"
    have l: "rx_loop h s = rx_loop h ?s1"
      using Some p by (subst rx_loop.simps) simp
    have h1: "h \<noteq> fused_rx_handle ?s1" using "1.prems" by simp
    have "fused_rx_data (rx_loop h ?s1) = fused_rx_data ?s1"
      by (rule "1.IH"[OF Some[unfolded p] refl h1])
    also have "\<dots> = fused_rx_data s"
      using process_line_other(2)[of h "s\<lparr>rx_buffer := rest\<rparr>" line] "1.prems" by simp
    finally show ?thesis unfolding l .
  qed
qed

lemma save_other_kept:
  "(if h = fused_rx_handle s
    then gps_rx_data (save_received_data h raw s) = gps_rx_data s
    else fused_rx_data (save_received_data h raw s) = fused_rx_data s)"
proof (cases "h = fused_rx_handle s")
  case True
  then have "gps_rx_data (save_received_data h raw s) = gps_rx_data s"
    unfolding save_received_data_def
    using rx_loop_gps_kept[of h "s\<lparr>rx_buffer := rx_buffer s @ raw\<rparr>"] by simp
  with True show ?thesis by simp
next
  case False
  then have "fused_rx_data (save_received_data h raw s) = fused_rx_data s"
    unfolding save_received_data_def
    using rx_loop_fused_kept[of h "s\<lparr>rx_buffer := rx_buffer s @ raw\<rparr>"] by simp
  with False show ?thesis by simp
qed

subsection \<open>Sparse merge\<close>

lemma process_line_fused_key:
  "dict_get (fused_rx_data (process_line h line s)) k =
     (if h = fused_rx_handle s
      then (case line_delta line k of None \<Rightarrow> dict_get (fused_rx_data s) k | Some v \<Rightarrow> Some v)
      else dict_get (fused_rx_data s) k)"
  by (simp add: process_line_fused map_add_def)


text \<open>A field name that does not occur in quotes in the cropped line is not in its delta.\<close>

lemma scan_fields_absent:
  "py_find c (CHR 0x22 # k @ [CHR 0x22]) 0 = None \<Longrightarrow> scan_fields c k = None"
  by (auto simp: scan_fields_def extract_number_def)


lemma two_lines:
  assumes "rx_buffer s = []" and "CHR 0x0A \<notin> set l1" and "CHR 0x0A \<notin> set l2"
  shows "save_chunks h [l1 @ [CHR 0x0A], l2 @ [CHR 0x0A]] s = process_line h l2 (process_line h l1 s)"
  using assms by (simp add: save_one_line rx_buffer_process_line)

subsection \<open>The scan on a message of the wire format\<close>
























subsection \<open>Cleaning a wire message\<close>


















subsection \<open>The delta of a wire message\<close>













subsection \<open>Fragments\<close>

lemma frag: \<open>cropped ''not-json'' = None\<close> by code_simp

lemma delta3: \<open>line_delta ''{"latitude":3.0}'' ''latitude'' = Some (PFloat 3)\<close> by code_simp

subsection \<open>Strict and tolerant decoding\<close>

lemma rx_loop_3_no_newline: "CHR 0x0A \<notin> set (rx_buffer s) \<Longrightarrow> rx_loop_3 loads h s = s"
  by (subst rx_loop_3.simps) (simp add: split_newline_none)

lemma save_one_line_3:
  assumes "rx_buffer s = []" and "CHR 0x0A \<notin> set line"
  shows "save_received_data_3 loads h (line @ [CHR 0x0A]) s = process_line_3 loads h line s"
proof -
  have s: "s\<lparr>rx_buffer := []\<rparr> = s" using assms(1) by (cases s) simp
  have "save_received_data_3 loads h (line @ [CHR 0x0A]) s =
        rx_loop_3 loads h (process_line_3 loads h line (s\<lparr>rx_buffer := []\<rparr>))"
    unfolding save_received_data_3_def
    using split_newline_line[OF assms(2), of "[]"] assms(1)
    by (subst rx_loop_3.simps) simp
  also have "\<dots> = process_line_3 loads h line s"
    unfolding s by (rule rx_loop_3_no_newline) (simp add: rx_buffer_process_line_3 assms(1))
  finally show ?thesis .
qed

lemma process_line_3_failed:
  assumes "cropped line = Some c" and "loads c = None"
  shows "process_line_3 loads h line s =
     print_log (ParseFailed c) (print_log (CleanString c) (print_log (RawBytes (py_strip line)) s))"
proof -
  from cropped_SomeD[OF assms(1)] obtain lb rb where
    f: "py_find (cleaned line) ''{'' 0 = Some lb" and r: "py_rfind (cleaned line) (CHR ''}'') = Some rb"
    and lt: "lb < rb" and c: "c = take (rb + 1 - lb) (drop lb (cleaned line))"
    by blast
  from cropped_nonempty[OF assms(1)] have ne: "py_strip line \<noteq> []" by simp
  show ?thesis
    unfolding process_line_3_def decode_ignore_def
    using f r lt ne assms(2)[unfolded c] by (simp add: Let_def cleaned_unfold c)
qed

text \<open>
  Claim C5, as amended.  \<open>save_received_data\<close> attempts no strict decode.  For every
  complete line that has a cropped text, the update of the record is the tolerant scan of
  that text, whether or not the text is valid JSON.  On a line whose strict decode fails
  this is what the two-stage decode of the specification gives as well; the variant
  \<open>save_received_data_3\<close>, the one that decodes strictly, leaves both records as they
  were on such a line: it has no fallback.
\<close>

theorem tolerant_scan_only:
  assumes "rx_buffer s = []" and "CHR 0x0A \<notin> set line" and "cropped line = Some c"
  shows "dict_get (fused_rx_data (save_received_data h (line @ [CHR 0x0A]) s)) =
           (if h = fused_rx_handle s then dict_get (fused_rx_data s) ++ scan_fields c
            else dict_get (fused_rx_data s)) \<and>
         dict_get (gps_rx_data (save_received_data h (line @ [CHR 0x0A]) s)) =
           (if h \<noteq> fused_rx_handle s \<and> h = gps_rx_handle s
            then dict_get (gps_rx_data s) ++ scan_fields c
            else dict_get (gps_rx_data s)) \<and>
         (loads c = None \<longrightarrow>
            two_stage_delta loads c = scan_fields c \<and>
            fused_rx_data (save_received_data_3 loads h (line @ [CHR 0x0A]) s) = fused_rx_data s \<and>
            gps_rx_data (save_received_data_3 loads h (line @ [CHR 0x0A]) s) = gps_rx_data s)"
proof -
  have one: "save_received_data h (line @ [CHR 0x0A]) s = process_line h line s"
    by (rule save_one_line[OF assms(1,2)])
  have one3: "save_received_data_3 loads h (line @ [CHR 0x0A]) s = process_line_3 loads h line s"
    by (rule save_one_line_3[OF assms(1,2)])
  have a: "dict_get (fused_rx_data (process_line h line s)) =
           (if h = fused_rx_handle s then dict_get (fused_rx_data s) ++ scan_fields c
            else dict_get (fused_rx_data s))"
    by (simp add: process_line_fused line_delta_Some[OF assms(3)])
  have b: "dict_get (gps_rx_data (process_line h line s)) =
           (if h \<noteq> fused_rx_handle s \<and> h = gps_rx_handle s
            then dict_get (gps_rx_data s) ++ scan_fields c
            else dict_get (gps_rx_data s))"
    by (simp add: process_line_gps line_delta_Some[OF assms(3)])
  have c: "two_stage_delta loads c = scan_fields c" if "loads c = None"
    by (rule ext) (simp add: two_stage_delta_def that)
  have d: "fused_rx_data (process_line_3 loads h line s) = fused_rx_data s"
    "gps_rx_data (process_line_3 loads h line s) = gps_rx_data s" if "loads c = None"
    using process_line_3_failed[of line c loads h s, OF assms(3) that]
    by (simp_all add: print_log_def)
  show ?thesis unfolding one one3 using a b c d by blast
qed

theorem tolerant_scan_only_witness:
  \<open>json_loads_object ''{"latitude":3.5,,}'' = None \<and>
   dict_get (fused_rx_data (save_received_data 4 (''{"latitude":3.5,,}'' @ [CHR 0x0A]) ble_demo))
      ''latitude'' = Some (PFloat (7/2)) \<and>
   fused_rx_data (save_received_data_3 json_loads_object 4 (''{"latitude":3.5,,}'' @ [CHR 0x0A]) ble_demo)
     = rx_defaults\<close>
proof -
  have h1: "rx_buffer ble_demo = []" by code_simp
  have h2: \<open>CHR 0x0A \<notin> set ''{"latitude":3.5,,}''\<close> by simp
  have h3: \<open>cropped ''{"latitude":3.5,,}'' = Some ''{"latitude":3.5,,}''\<close> by code_simp
  have h4: \<open>json_loads_object ''{"latitude":3.5,,}'' = None\<close> by code_simp
  have f: "fused_rx_data ble_demo = rx_defaults" "fused_rx_handle ble_demo = 4"
    by (simp_all add: ble_demo_def ble_init_def)
  have sc: \<open>scan_fields ''{"latitude":3.5,,}'' ''latitude'' = Some (PFloat (7/2))\<close> by code_simp
  from tolerant_scan_only[OF h1 h2 h3, of 4 json_loads_object] h4
  have \<open>dict_get (fused_rx_data (save_received_data 4 (''{"latitude":3.5,,}'' @ [CHR 0x0A]) ble_demo)) =
           (if 4 = fused_rx_handle ble_demo
            then dict_get (fused_rx_data ble_demo) ++ scan_fields ''{"latitude":3.5,,}''
            else dict_get (fused_rx_data ble_demo))\<close>
    and \<open>fused_rx_data (save_received_data_3 json_loads_object 4
            (''{"latitude":3.5,,}'' @ [CHR 0x0A]) ble_demo) = fused_rx_data ble_demo\<close>
    by blast+
  then show ?thesis using h4 by (simp add: f sc map_add_def)
qed

text \<open>
  Claim C5 as stated fails: \<open>{"a":{"latitude":5}}\<close> is valid JSON whose object has the
  single key \<open>a\<close>, so a strict decode finds no latitude to store and the two-stage decode
  leaves the record as it was, while \<open>save_received_data\<close> scans the text and stores
  latitude 5.
\<close>

theorem tolerant_scan_only_counterexample:
  \<open>json_loads_object ''{"a":{"latitude":5}}'' = Some [(''a'', PDict [(''latitude'', PInt 5)])] \<and>
   two_stage_delta json_loads_object ''{"a":{"latitude":5}}'' ''latitude'' = None \<and>
   cropped ''{"a":{"latitude":5}}'' = Some ''{"a":{"latitude":5}}'' \<and>
   dict_get (fused_rx_data ble_demo) ''latitude'' = Some (PFloat 0) \<and>
   dict_get (fused_rx_data (save_received_data (fused_rx_handle ble_demo)
       ''{"a":{"latitude":5}}\<newline>'' ble_demo)) ''latitude'' = Some (PFloat 5)\<close>
  by code_simp

subsection \<open>The strict framer of version 1.3.0\<close>

lemma process_line_1_buffer:
  "process_line_1 loads h line (s\<lparr>rx_buffer := b\<rparr>) = (process_line_1 loads h line s)\<lparr>rx_buffer := b\<rparr>"
  by (simp add: process_line_1_def print_log_def split: option.splits prod.splits)

lemma rx_loop_1_append:
  "rx_loop_1 loads h (s\<lparr>rx_buffer := rx_buffer s @ ys\<rparr>) =
   rx_loop_1 loads h ((rx_loop_1 loads h s)\<lparr>rx_buffer := rx_buffer (rx_loop_1 loads h s) @ ys\<rparr>)"
proof (induction loads h s rule: rx_loop_1.induct)
  case (1 loads h s)
  show ?case
  proof (cases "split_newline (rx_buffer s)")
    case None
    then have "rx_loop_1 loads h s = s" by (subst rx_loop_1.simps) simp
    then show ?thesis by simp
  next
    case (Some p)
    obtain line rest where p: "p = (line, rest)" by (cases p)
    let ?s1 = "process_line_1 loads h line (s\<lparr>rx_buffer := rest\<rparr>)"
    have b1: "rx_buffer ?s1 = rest" by (simp add: rx_buffer_process_line_1)
    have l: "rx_loop_1 loads h s = rx_loop_1 loads h ?s1"
      using Some p by (subst rx_loop_1.simps) simp
    have "rx_loop_1 loads h (s\<lparr>rx_buffer := rx_buffer s @ ys\<rparr>) =
          rx_loop_1 loads h (process_line_1 loads h line (s\<lparr>rx_buffer := rest @ ys\<rparr>))"
      using split_newline_append[OF Some[unfolded p], of ys]
      by (subst rx_loop_1.simps) simp
    also have "process_line_1 loads h line (s\<lparr>rx_buffer := rest @ ys\<rparr>) =
          ?s1\<lparr>rx_buffer := rx_buffer ?s1 @ ys\<rparr>"
      by (simp add: process_line_1_buffer)
    also have "rx_loop_1 loads h (?s1\<lparr>rx_buffer := rx_buffer ?s1 @ ys\<rparr>) =
          rx_loop_1 loads h ((rx_loop_1 loads h ?s1)\<lparr>rx_buffer := rx_buffer (rx_loop_1 loads h ?s1) @ ys\<rparr>)"
      using "1.IH"[OF Some[unfolded p] refl] by simp
    finally show ?thesis using l by simp
  qed
qed

lemma save_1_append:
  "save_received_data_1 loads h (a @ b) s =
   save_received_data_1 loads h b (save_received_data_1 loads h a s)"
  unfolding save_received_data_1_def
  using rx_loop_1_append[of loads h "s\<lparr>rx_buffer := rx_buffer s @ a\<rparr>" b] by simp

lemma save_chunks_1_concat:
  "save_chunks_1 loads h (c # cs) s = save_received_data_1 loads h (concat (c # cs)) s"
proof (induction cs arbitrary: c s)
  case Nil
  then show ?case by simp
next
  case (Cons d ds)
  have "save_chunks_1 loads h (c # d # ds) s =
        save_chunks_1 loads h (d # ds) (save_received_data_1 loads h c s)"
    by simp
  also have "\<dots> = save_received_data_1 loads h (concat (d # ds)) (save_received_data_1 loads h c s)"
    by (rule Cons.IH)
  also have "\<dots> = save_received_data_1 loads h (c @ concat (d # ds)) s"
    by (rule save_1_append[symmetric])
  finally show ?case by simp
qed

lemma rx_loop_1_no_newline: "CHR 0x0A \<notin> set (rx_buffer s) \<Longrightarrow> rx_loop_1 loads h s = s"
  by (subst rx_loop_1.simps) (simp add: split_newline_none)

lemma save_one_line_1:
  assumes "rx_buffer s = []" and "CHR 0x0A \<notin> set line"
  shows "save_received_data_1 loads h (line @ [CHR 0x0A]) s = process_line_1 loads h line s"
proof -
  have s: "s\<lparr>rx_buffer := []\<rparr> = s" using assms(1) by (cases s) simp
  have "save_received_data_1 loads h (line @ [CHR 0x0A]) s =
        rx_loop_1 loads h (process_line_1 loads h line (s\<lparr>rx_buffer := []\<rparr>))"
    unfolding save_received_data_1_def
    using split_newline_line[OF assms(2), of "[]"] assms(1)
    by (subst rx_loop_1.simps) simp
  also have "\<dots> = process_line_1 loads h line s"
    unfolding s by (rule rx_loop_1_no_newline) (simp add: rx_buffer_process_line_1 assms(1))
  finally show ?thesis .
qed

text \<open>What the six statements do with an object, and with a value that is no object.\<close>

lemma copy_keys_dict:
  "copy_keys ks (PDict d) rec =
     (fold (\<lambda>k r. case dict_get d k of None \<Rightarrow> r | Some v \<Rightarrow> dict_set k v r) ks rec, True)"
  by (induction ks arbitrary: rec)
     (auto simp: copy_key_def py_contains_def split: option.splits)

lemma copy_keys_object:
  "dict_get (fst (copy_keys RX_KEYS (PDict d) rec)) = dict_get rec ++ strict_fields d"
  by (rule ext)
     (auto simp: copy_keys_dict RX_KEYS_def strict_fields_def map_add_def dict_get_def
        dict_set_def update_conv' split: option.splits)

lemma copy_key_no_object:
  "(\<And>d. data \<noteq> PDict d) \<Longrightarrow> copy_key k data rec = None \<or> copy_key k data rec = Some rec"
  by (cases data) (auto simp: copy_key_def py_contains_def split: option.splits bool.splits)

lemma copy_keys_no_object:
  "(\<And>d. data \<noteq> PDict d) \<Longrightarrow> fst (copy_keys ks data rec) = rec"
proof (induction ks)
  case Nil
  then show ?case by simp
next
  case (Cons k ks)
  from copy_key_no_object[of data k rec] Cons.prems Cons.IH show ?case
    by (auto split: option.splits)
qed

lemma process_line_1_handles [simp]:
  "fused_rx_handle (process_line_1 loads h line s) = fused_rx_handle s"
  "gps_rx_handle (process_line_1 loads h line s) = gps_rx_handle s"
  by (simp_all add: process_line_1_def print_log_def split: option.splits prod.splits)

lemma process_line_1_other:
  "h = fused_rx_handle s \<Longrightarrow> gps_rx_data (process_line_1 loads h line s) = gps_rx_data s"
  "h \<noteq> fused_rx_handle s \<Longrightarrow> fused_rx_data (process_line_1 loads h line s) = fused_rx_data s"
  by (simp_all add: process_line_1_def print_log_def split: option.splits prod.splits)

lemma process_line_1_object:
  assumes "line \<noteq> []" and "decode_strict line = Some line" and "loads line = Some (PDict d)"
  shows "dict_get (fused_rx_data (process_line_1 loads h line s)) =
           (if h = fused_rx_handle s then dict_get (fused_rx_data s) ++ strict_fields d
            else dict_get (fused_rx_data s))"
    and "dict_get (gps_rx_data (process_line_1 loads h line s)) =
           (if h \<noteq> fused_rx_handle s \<and> h = gps_rx_handle s
            then dict_get (gps_rx_data s) ++ strict_fields d
            else dict_get (gps_rx_data s))"
  using assms copy_keys_object[of d "fused_rx_data s"] copy_keys_object[of d "gps_rx_data s"]
  by (simp_all add: process_line_1_def copy_keys_dict)

lemma process_line_1_no_object:
  assumes "\<And>d. loads line \<noteq> Some (PDict d)"
  shows "fused_rx_data (process_line_1 loads h line s) = fused_rx_data s \<and>
         gps_rx_data (process_line_1 loads h line s) = gps_rx_data s"
proof (cases "loads line")
  case None
  then show ?thesis
    by (simp add: process_line_1_def print_log_def decode_strict_def split: option.splits)
next
  case (Some data)
  with assms have nd: "\<And>d. data \<noteq> PDict d" by auto
  have f: "fst (copy_keys RX_KEYS data r) = r" for r
    by (rule copy_keys_no_object[OF nd])
  show ?thesis
  proof (cases "line = [] \<or> decode_strict line = None")
    case True
    then show ?thesis by (auto simp: process_line_1_def print_log_def)
  next
    case False
    then have d: "decode_strict line = Some line" and ne: "line \<noteq> []"
      by (auto simp: decode_strict_def split: if_splits)
    obtain okf where cf: "copy_keys RX_KEYS data (fused_rx_data s) = (fused_rx_data s, okf)"
      using f[of "fused_rx_data s"] by (cases "copy_keys RX_KEYS data (fused_rx_data s)") simp
    obtain okg where cg: "copy_keys RX_KEYS data (gps_rx_data s) = (gps_rx_data s, okg)"
      using f[of "gps_rx_data s"] by (cases "copy_keys RX_KEYS data (gps_rx_data s)") simp
    show ?thesis
      by (simp add: process_line_1_def d ne Some print_log_def cf cg)
  qed
qed

lemma rx_loop_1_gps_kept:
  "h = fused_rx_handle s \<Longrightarrow> gps_rx_data (rx_loop_1 loads h s) = gps_rx_data s"
proof (induction loads h s rule: rx_loop_1.induct)
  case (1 loads h s)
  show ?case
  proof (cases "split_newline (rx_buffer s)")
    case None
    then have e: "rx_loop_1 loads h s = s" by (subst rx_loop_1.simps) simp
    show ?thesis unfolding e by simp
  next
    case (Some p)
    obtain line rest where p: "p = (line, rest)" by (cases p)
    let ?s1 = "process_line_1 loads h line (s\<lparr>rx_buffer := rest\<rparr>)"
    have l: "rx_loop_1 loads h s = rx_loop_1 loads h ?s1"
      using Some p by (subst rx_loop_1.simps) simp
    have h1: "h = fused_rx_handle ?s1" using "1.prems" by simp
    have "gps_rx_data (rx_loop_1 loads h ?s1) = gps_rx_data ?s1"
      by (rule "1.IH"[OF Some[unfolded p] refl h1])
    also have "\<dots> = gps_rx_data s"
      using process_line_1_other(1)[of h "s\<lparr>rx_buffer := rest\<rparr>" loads line] "1.prems" by simp
    finally show ?thesis unfolding l .
  qed
qed

lemma rx_loop_1_fused_kept:
  "h \<noteq> fused_rx_handle s \<Longrightarrow> fused_rx_data (rx_loop_1 loads h s) = fused_rx_data s"
proof (induction loads h s rule: rx_loop_1.induct)
  case (1 loads h s)
  show ?case
  proof (cases "split_newline (rx_buffer s)")
    case None
    then have e: "rx_loop_1 loads h s = s" by (subst rx_loop_1.simps) simp
    show ?thesis unfolding e by simp
  next
    case (Some p)
    obtain line rest where p: "p = (line, rest)" by (cases p)
    let ?s1 = "process_line_1 loads h line (s\<lparr>rx_buffer := rest\<rparr>)"
    have l: "rx_loop_1 loads h s = rx_loop_1 loads h ?s1"
      using Some p by (subst rx_loop_1.simps) simp
    have h1: "h \<noteq> fused_rx_handle ?s1" using "1.prems" by simp
    have "fused_rx_data (rx_loop_1 loads h ?s1) = fused_rx_data ?s1"
      by (rule "1.IH"[OF Some[unfolded p] refl h1])
    also have "\<dots> = fused_rx_data s"
      using process_line_1_other(2)[of h "s\<lparr>rx_buffer := rest\<rparr>" loads line] "1.prems" by simp
    finally show ?thesis unfolding l .
  qed
qed

lemma save_1_other_kept:
  "(if h = fused_rx_handle s
    then gps_rx_data (save_received_data_1 loads h raw s) = gps_rx_data s
    else fused_rx_data (save_received_data_1 loads h raw s) = fused_rx_data s)"
proof (cases "h = fused_rx_handle s")
  case True
  then have "gps_rx_data (save_received_data_1 loads h raw s) = gps_rx_data s"
    unfolding save_received_data_1_def
    using rx_loop_1_gps_kept[of h "s\<lparr>rx_buffer := rx_buffer s @ raw\<rparr>"] by simp
  with True show ?thesis by simp
next
  case False
  then have "fused_rx_data (save_received_data_1 loads h raw s) = fused_rx_data s"
    unfolding save_received_data_1_def
    using rx_loop_1_fused_kept[of h "s\<lparr>rx_buffer := rx_buffer s @ raw\<rparr>"] by simp
  with False show ?thesis by simp
qed

text \<open>The reference decoder returns an object only for a text that opens with a brace.\<close>

lemma json_elements_list:
  "json_elements n acc s = Some (v, r) \<Longrightarrow> \<exists>xs. v = PList xs"
proof (induction n arbitrary: acc s)
  case 0
  then show ?case by simp
next
  case (Suc n)
  then show ?case
    by (auto split: option.splits list.splits if_splits)
qed

lemma json_number_no_object: "json_number s = Some (v, r) \<Longrightarrow> v \<noteq> PDict d"
  by (auto simp: json_number_def Let_def split: option.splits if_splits)

lemma json_value_object:
  assumes "json_value n s = Some (PDict d, r)"
  shows "\<exists>cs. skip_ws s = CHR ''{'' # cs"
proof (cases n)
  case 0
  with assms show ?thesis by simp
next
  case (Suc m)
  show ?thesis
  proof (cases "skip_ws s")
    case Nil
    with assms Suc show ?thesis by simp
  next
    case (Cons c cs)
    show ?thesis
    proof (cases "c = CHR ''{''")
      case True
      with Cons show ?thesis by simp
    next
      case False
      with assms Suc Cons json_elements_list json_number_no_object show ?thesis
        by (fastforce split: list.splits if_splits)
    qed
  qed
qed

lemma json_loads_object_brace:
  "json_loads s = Some (PDict d) \<Longrightarrow> \<exists>cs. skip_ws s = CHR ''{'' # cs"
  using json_value_object[of "Suc (length s)" s d]
  by (auto simp: json_loads_def split: option.splits if_splits)

lemma two_lines_1:
  assumes "rx_buffer s = []" and "CHR 0x0A \<notin> set l1" and "CHR 0x0A \<notin> set l2"
  shows "save_chunks_1 loads h [l1 @ [CHR 0x0A], l2 @ [CHR 0x0A]] s =
         process_line_1 loads h l2 (process_line_1 loads h l1 s)"
  using assms by (simp add: save_one_line_1 rx_buffer_process_line_1)

lemma strict_lat:
  \<open>decode_strict ''{"latitude":1.0}'' = Some ''{"latitude":1.0}''\<close>
  \<open>json_loads ''{"latitude":1.0}'' = Some (PDict [(''latitude'', PFloat 1)])\<close>
  \<open>decode_strict ''{"longitude":2.0}'' = Some ''{"longitude":2.0}''\<close>
  \<open>json_loads ''{"longitude":2.0}'' = Some (PDict [(''longitude'', PFloat 2)])\<close>
  \<open>decode_strict ''{"latitude":3.0}'' = Some ''{"latitude":3.0}''\<close>
  \<open>json_loads ''{"latitude":3.0}'' = Some (PDict [(''latitude'', PFloat 3)])\<close>
  \<open>json_loads ''not-json'' = None\<close>
  by code_simp+

subsection \<open>The framer claims\<close>

text \<open>
  Claim C1.  Delivering a byte stream to one characteristic in any number of chunks, cut
  at any positions, leaves the same state as delivering it in one write: the same fused
  and GPS records, the same pending bytes, and the same printed trace, whose
  \<open>UpdatingFused\<close> and \<open>UpdatingGps\<close> entries are the updates applied, in order.  This
  holds for every byte stream, hence for every sequence of newline-terminated well-formed
  lines, and for the framer of either version.
\<close>

theorem chunking_invariance:
  "save_chunks h (c # cs) s = save_received_data h (concat (c # cs)) s \<and>
   save_chunks_1 loads h (c # cs) s = save_received_data_1 loads h (concat (c # cs)) s"
proof -
  have "save_chunks h (c # cs) s = save_received_data h (concat (c # cs)) s"
  proof (induction cs arbitrary: c s)
    case Nil
    then show ?case by simp
  next
    case (Cons d ds)
    have "save_chunks h (c # d # ds) s = save_chunks h (d # ds) (save_received_data h c s)"
      by simp
    also have "\<dots> = save_received_data h (concat (d # ds)) (save_received_data h c s)"
      by (rule Cons.IH)
    also have "\<dots> = save_received_data h (c @ concat (d # ds)) s"
      by (rule save_append[symmetric])
    finally show ?case by simp
  qed
  then show ?thesis using save_chunks_1_concat[of loads h c cs s] by (rule conjI)
qed




text \<open>
  The receive buffer of versions 1.3.0 and 1.3.2 is one for all characteristics.  A write
  without a newline only appends its bytes to it, whatever the handle, and the next
  write, on any handle, is framed together with the pending bytes exactly as if both had
  arrived on its own handle.  Only the records are kept apart: a write on the fused
  handle leaves the GPS record as it was, a write on any other handle the fused record.
\<close>

lemma pending_bytes_shared:
  assumes "CHR 0x0A \<notin> set (rx_buffer s)" and "CHR 0x0A \<notin> set a"
  shows "save_received_data h1 a s = s\<lparr>rx_buffer := rx_buffer s @ a\<rparr> \<and>
         save_received_data h2 b (save_received_data h1 a s) = save_received_data h2 (a @ b) s \<and>
         (if h2 = fused_rx_handle s
          then gps_rx_data (save_received_data h2 b (save_received_data h1 a s)) = gps_rx_data s
          else fused_rx_data (save_received_data h2 b (save_received_data h1 a s)) = fused_rx_data s) \<and>
         save_received_data_1 loads h1 a s = s\<lparr>rx_buffer := rx_buffer s @ a\<rparr> \<and>
         save_received_data_1 loads h2 b (save_received_data_1 loads h1 a s) =
           save_received_data_1 loads h2 (a @ b) s \<and>
         (if h2 = fused_rx_handle s
          then gps_rx_data (save_received_data_1 loads h2 b (save_received_data_1 loads h1 a s)) =
                 gps_rx_data s
          else fused_rx_data (save_received_data_1 loads h2 b (save_received_data_1 loads h1 a s)) =
                 fused_rx_data s)"
proof -
  have 1: "save_received_data h1 a s = s\<lparr>rx_buffer := rx_buffer s @ a\<rparr>"
    unfolding save_received_data_def using assms by (simp add: rx_loop_no_newline)
  have 2: "save_received_data h2 b (save_received_data h1 a s) = save_received_data h2 (a @ b) s"
    unfolding 1 by (simp add: save_received_data_def)
  have 3: "(if h2 = fused_rx_handle s
          then gps_rx_data (save_received_data h2 (a @ b) s) = gps_rx_data s
          else fused_rx_data (save_received_data h2 (a @ b) s) = fused_rx_data s)"
    by (rule save_other_kept)
  have 4: "save_received_data_1 loads h1 a s = s\<lparr>rx_buffer := rx_buffer s @ a\<rparr>"
    unfolding save_received_data_1_def using assms by (simp add: rx_loop_1_no_newline)
  have 5: "save_received_data_1 loads h2 b (save_received_data_1 loads h1 a s) =
      save_received_data_1 loads h2 (a @ b) s"
    unfolding 4 by (simp add: save_received_data_1_def)
  have 6: "(if h2 = fused_rx_handle s
          then gps_rx_data (save_received_data_1 loads h2 (a @ b) s) = gps_rx_data s
          else fused_rx_data (save_received_data_1 loads h2 (a @ b) s) = fused_rx_data s)"
    by (rule save_1_other_kept)
  show ?thesis
    apply (intro conjI)
         apply (rule 1)
        apply (rule 2)
       apply (subst 2)+
       apply (rule 3)
      apply (rule 4)
     apply (rule 5)
    apply (subst 5)+
    apply (rule 6)
    done
qed

text \<open>
  Claim C3.  The claim is that each channel accumulates its bytes in a buffer of its own,
  so that a partial line pending on the fused channel is unaffected by, and does not
  affect, a write on the GPS channel.  The framers of versions 1.3.2 and 1.3.0 violate
  it.  On a scale just initialised (fused handle 4, GPS handle 6) the fused channel
  sends the line \<open>{"latitude":48.1,"longitude":11.5}\<close> in two writes and the GPS channel
  sends the line \<open>{"latitude":50.0}\<close> between them.  After the first fused write its
  bytes are pending; the GPS write consumes them.  In version 1.3.2 the GPS record then
  holds the fused latitude 48.1 instead of 50.0 and the fused record is never updated; in
  version 1.3.0 both lines are lost and both records stay at their defaults.  With the
  streams kept apart, as when each line arrives in one write, the GPS record holds
  latitude 50.0 and the fused record latitude 48.1 and longitude 11.5.  Even a GPS write
  of only \<open>}\<close> and a newline completes a pending fused \<open>{"latitude":1.0\<close> and stores it
  in the GPS record, though on an empty buffer it changes nothing.
\<close>

theorem shared_buffer_misroutes:
  \<open>fused_rx_handle ble_demo = 4 \<and> gps_rx_handle ble_demo = 6 \<and> rx_buffer ble_demo = [] \<and>
   fused_rx_data ble_demo = rx_defaults \<and> gps_rx_data ble_demo = rx_defaults \<and>
   rx_buffer (save_received_data 4 ''{"latitude":48.1,'' ble_demo) = ''{"latitude":48.1,'' \<and>
   rx_buffer (save_received_data 6 ''{"latitude":50.0}\<newline>''
     (save_received_data 4 ''{"latitude":48.1,'' ble_demo)) = [] \<and>
   gps_rx_data (save_received_data 6 ''{"latitude":50.0}\<newline>''
     (save_received_data 4 ''{"latitude":48.1,'' ble_demo)) =
     [(''time'', PInt 0), (''latitude'', PFloat (481 / 10)), (''longitude'', PFloat 0),
      (''speed'', PFloat 0), (''altitude'', PFloat 0), (''accuracy'', PFloat 0)] \<and>
   gps_rx_data (save_received_data 4 ''"longitude":11.5}\<newline>''
     (save_received_data 6 ''{"latitude":50.0}\<newline>''
       (save_received_data 4 ''{"latitude":48.1,'' ble_demo))) =
     [(''time'', PInt 0), (''latitude'', PFloat (481 / 10)), (''longitude'', PFloat 0),
      (''speed'', PFloat 0), (''altitude'', PFloat 0), (''accuracy'', PFloat 0)] \<and>
   fused_rx_data (save_received_data 4 ''"longitude":11.5}\<newline>''
     (save_received_data 6 ''{"latitude":50.0}\<newline>''
       (save_received_data 4 ''{"latitude":48.1,'' ble_demo))) = rx_defaults \<and>
   gps_rx_data (save_received_data 6 ''{"latitude":50.0}\<newline>''
     (save_received_data 4 ''{"latitude":48.1,"longitude":11.5}\<newline>'' ble_demo)) =
     [(''time'', PInt 0), (''latitude'', PFloat 50), (''longitude'', PFloat 0),
      (''speed'', PFloat 0), (''altitude'', PFloat 0), (''accuracy'', PFloat 0)] \<and>
   fused_rx_data (save_received_data 6 ''{"latitude":50.0}\<newline>''
     (save_received_data 4 ''{"latitude":48.1,"longitude":11.5}\<newline>'' ble_demo)) =
     [(''time'', PInt 0), (''latitude'', PFloat (481 / 10)), (''longitude'', PFloat (23 / 2)),
      (''speed'', PFloat 0), (''altitude'', PFloat 0), (''accuracy'', PFloat 0)] \<and>
   rx_buffer (save_received_data_1 json_loads 4 ''{"latitude":48.1,'' ble_demo) =
     ''{"latitude":48.1,'' \<and>
   rx_buffer (save_received_data_1 json_loads 6 ''{"latitude":50.0}\<newline>''
     (save_received_data_1 json_loads 4 ''{"latitude":48.1,'' ble_demo)) = [] \<and>
   gps_rx_data (save_received_data_1 json_loads 4 ''"longitude":11.5}\<newline>''
     (save_received_data_1 json_loads 6 ''{"latitude":50.0}\<newline>''
       (save_received_data_1 json_loads 4 ''{"latitude":48.1,'' ble_demo))) = rx_defaults \<and>
   fused_rx_data (save_received_data_1 json_loads 4 ''"longitude":11.5}\<newline>''
     (save_received_data_1 json_loads 6 ''{"latitude":50.0}\<newline>''
       (save_received_data_1 json_loads 4 ''{"latitude":48.1,'' ble_demo))) = rx_defaults \<and>
   gps_rx_data (save_received_data_1 json_loads 6 ''{"latitude":50.0}\<newline>''
     (save_received_data_1 json_loads 4 ''{"latitude":48.1,"longitude":11.5}\<newline>'' ble_demo)) =
     [(''time'', PInt 0), (''latitude'', PFloat 50), (''longitude'', PFloat 0),
      (''speed'', PFloat 0), (''altitude'', PFloat 0), (''accuracy'', PFloat 0)] \<and>
   fused_rx_data (save_received_data_1 json_loads 6 ''{"latitude":50.0}\<newline>''
     (save_received_data_1 json_loads 4 ''{"latitude":48.1,"longitude":11.5}\<newline>'' ble_demo)) =
     [(''time'', PInt 0), (''latitude'', PFloat (481 / 10)), (''longitude'', PFloat (23 / 2)),
      (''speed'', PFloat 0), (''altitude'', PFloat 0), (''accuracy'', PFloat 0)] \<and>
   gps_rx_data (save_received_data 6 ''}\<newline>'' (save_received_data 4 ''{"latitude":1.0'' ble_demo)) =
     [(''time'', PInt 0), (''latitude'', PFloat 1), (''longitude'', PFloat 0),
      (''speed'', PFloat 0), (''altitude'', PFloat 0), (''accuracy'', PFloat 0)] \<and>
   gps_rx_data (save_received_data 6 ''}\<newline>'' ble_demo) = rx_defaults \<and>
   gps_rx_data (save_received_data_1 json_loads 6 ''}\<newline>''
     (save_received_data_1 json_loads 4 ''{"latitude":1.0'' ble_demo)) =
     [(''time'', PInt 0), (''latitude'', PFloat 1), (''longitude'', PFloat 0),
      (''speed'', PFloat 0), (''altitude'', PFloat 0), (''accuracy'', PFloat 0)] \<and>
   gps_rx_data (save_received_data_1 json_loads 6 ''}\<newline>'' ble_demo) = rx_defaults\<close>
  by code_simp

text \<open>
  Claim C4, as amended.  On an empty buffer, in version 1.3.2 a complete line for which
  step 5 finds no opening brace, no closing brace, or the last closing brace not after
  the first opening one (\<open>cropped line = None\<close>, which includes the lines skipped as
  empty) changes neither record and leaves the buffer empty, and the bytes after it are
  framed as if it had not been there; text before the first opening brace and after the
  last closing brace does not make a line a fragment: it is cropped away.  In version
  1.3.0 the same holds for every complete line that does not decode to an object, and
  with the reference decoder these include every line whose first non-blank character is
  not an opening brace.  In both, \<open>not-json\<close> is dropped and a following
  \<open>{"latitude":3.0}\<close> stores latitude 3.0.
\<close>

theorem fragment_discard:
  assumes "rx_buffer s = []" and "CHR 0x0A \<notin> set line"
  shows \<open>(cropped line = None \<longrightarrow>
            fused_rx_data (save_received_data h (line @ [CHR 0x0A]) s) = fused_rx_data s \<and>
            gps_rx_data (save_received_data h (line @ [CHR 0x0A]) s) = gps_rx_data s) \<and>
         rx_buffer (save_received_data h (line @ [CHR 0x0A]) s) = [] \<and>
         save_received_data h (line @ CHR 0x0A # raw) s =
           save_received_data h raw (save_received_data h (line @ [CHR 0x0A]) s) \<and>
         fused_rx_data (save_received_data (fused_rx_handle s) ''not-json\<newline>'' s) = fused_rx_data s \<and>
         dict_get (fused_rx_data (save_chunks (fused_rx_handle s)
             [''not-json\<newline>'', ''{"latitude":3.0}\<newline>''] s)) ''latitude'' = Some (PFloat 3) \<and>
         ((\<forall>d. loads line \<noteq> Some (PDict d)) \<longrightarrow>
            fused_rx_data (save_received_data_1 loads h (line @ [CHR 0x0A]) s) = fused_rx_data s \<and>
            gps_rx_data (save_received_data_1 loads h (line @ [CHR 0x0A]) s) = gps_rx_data s) \<and>
         ((\<forall>cs. skip_ws line \<noteq> CHR ''{'' # cs) \<longrightarrow>
            fused_rx_data (save_received_data_1 json_loads h (line @ [CHR 0x0A]) s) = fused_rx_data s \<and>
            gps_rx_data (save_received_data_1 json_loads h (line @ [CHR 0x0A]) s) = gps_rx_data s) \<and>
         rx_buffer (save_received_data_1 loads h (line @ [CHR 0x0A]) s) = [] \<and>
         dict_get (fused_rx_data (save_chunks_1 json_loads (fused_rx_handle s)
             [''not-json\<newline>'', ''{"latitude":3.0}\<newline>''] s)) ''latitude'' = Some (PFloat 3)\<close>
proof -
  have one: "save_received_data h (line @ [CHR 0x0A]) s = process_line h line s"
    by (rule save_one_line[OF assms(1,2)])
  have f1: "cropped line = None \<longrightarrow>
      fused_rx_data (save_received_data h (line @ [CHR 0x0A]) s) = fused_rx_data s \<and>
      gps_rx_data (save_received_data h (line @ [CHR 0x0A]) s) = gps_rx_data s"
    unfolding one using process_line_fragment[of line h s] by blast
  have f3: "rx_buffer (save_received_data h (line @ [CHR 0x0A]) s) = []"
    unfolding one by (simp add: rx_buffer_process_line assms(1))
  have f4: "save_received_data h (line @ CHR 0x0A # raw) s =
           save_received_data h raw (save_received_data h (line @ [CHR 0x0A]) s)"
    using save_append[of h "line @ [CHR 0x0A]" raw s] by simp
  have nj: \<open>save_received_data h' ''not-json\<newline>'' s = process_line h' ''not-json'' s\<close> for h'
    using save_one_line[OF assms(1), of \<open>''not-json''\<close> h'] by simp
  have f5: \<open>fused_rx_data (save_received_data (fused_rx_handle s) ''not-json\<newline>'' s) = fused_rx_data s\<close>
    unfolding nj using process_line_fragment[OF frag] by simp
  have two: \<open>save_chunks h' [''not-json\<newline>'', ''{"latitude":3.0}\<newline>''] s =
      process_line h' ''{"latitude":3.0}'' (process_line h' ''not-json'' s)\<close> for h'
    using two_lines[OF assms(1), of \<open>''not-json''\<close> \<open>''{"latitude":3.0}''\<close> h'] by simp
  have f6: \<open>dict_get (fused_rx_data (save_chunks (fused_rx_handle s)
             [''not-json\<newline>'', ''{"latitude":3.0}\<newline>''] s)) ''latitude'' = Some (PFloat 3)\<close>
    unfolding two by (simp add: process_line_fused_key delta3)
  have one1: "save_received_data_1 l h (line @ [CHR 0x0A]) s = process_line_1 l h line s" for l
    by (rule save_one_line_1[OF assms(1,2)])
  have g1: "(\<forall>d. loads line \<noteq> Some (PDict d)) \<longrightarrow>
      fused_rx_data (save_received_data_1 loads h (line @ [CHR 0x0A]) s) = fused_rx_data s \<and>
      gps_rx_data (save_received_data_1 loads h (line @ [CHR 0x0A]) s) = gps_rx_data s"
    unfolding one1 using process_line_1_no_object[of loads line h s] by blast
  have g2: "(\<forall>cs. skip_ws line \<noteq> CHR ''{'' # cs) \<longrightarrow>
      fused_rx_data (save_received_data_1 json_loads h (line @ [CHR 0x0A]) s) = fused_rx_data s \<and>
      gps_rx_data (save_received_data_1 json_loads h (line @ [CHR 0x0A]) s) = gps_rx_data s"
    unfolding one1
    using process_line_1_no_object[of json_loads line h s] json_loads_object_brace[of line]
    by blast
  have g3: "rx_buffer (save_received_data_1 loads h (line @ [CHR 0x0A]) s) = []"
    unfolding one1 by (simp add: rx_buffer_process_line_1 assms(1))
  have two1: \<open>save_chunks_1 json_loads (fused_rx_handle s)
        [''not-json\<newline>'', ''{"latitude":3.0}\<newline>''] s =
      process_line_1 json_loads (fused_rx_handle s) ''{"latitude":3.0}''
        (process_line_1 json_loads (fused_rx_handle s) ''not-json'' s)\<close>
    using two_lines_1[OF assms(1), of \<open>''not-json''\<close> \<open>''{"latitude":3.0}''\<close>
        json_loads "fused_rx_handle s"] by simp
  have g4: \<open>dict_get (fused_rx_data (save_chunks_1 json_loads (fused_rx_handle s)
             [''not-json\<newline>'', ''{"latitude":3.0}\<newline>''] s)) ''latitude'' = Some (PFloat 3)\<close>
  proof -
    have o: \<open>dict_get (fused_rx_data (process_line_1 json_loads (fused_rx_handle s')
          ''{"latitude":3.0}'' s')) =
        dict_get (fused_rx_data s') ++ strict_fields [(''latitude'', PFloat 3)]\<close> for s'
      using process_line_1_object(1)[of \<open>''{"latitude":3.0}''\<close> json_loads
          \<open>[(''latitude'', PFloat 3)]\<close> "fused_rx_handle s'" s'] strict_lat(5,6)
      by simp
    have hh: \<open>fused_rx_handle s =
        fused_rx_handle (process_line_1 json_loads (fused_rx_handle s) ''not-json'' s)\<close>
      by simp
    show ?thesis
      unfolding two1
      apply (subst (1) hh)
      apply (simp only: o)
      apply (simp add: strict_fields_def dict_get_def map_add_def)
      done
  qed
  show ?thesis by (intro conjI f1 f3 f4 f5 f6 g1 g2 g3 g4)
qed

theorem fragment_discard_witness:
  \<open>cropped ''}oops{'' = None \<and> json_loads ''}oops{'' = None \<and>
   fused_rx_data (save_received_data 4 (''}oops{'' @ [CHR 0x0A]) ble_demo) = rx_defaults \<and>
   gps_rx_data (save_received_data 4 (''}oops{'' @ [CHR 0x0A]) ble_demo) = rx_defaults \<and>
   rx_buffer (save_received_data 4 (''}oops{'' @ [CHR 0x0A]) ble_demo) = [] \<and>
   fused_rx_data (save_received_data_1 json_loads 4 (''}oops{'' @ [CHR 0x0A]) ble_demo) = rx_defaults \<and>
   dict_get (fused_rx_data (save_chunks 4
             [''not-json\<newline>'', ''{"latitude":3.0}\<newline>''] ble_demo)) ''latitude'' = Some (PFloat 3)\<close>
proof -
  have h1: "rx_buffer ble_demo = []" by code_simp
  have h2: \<open>CHR 0x0A \<notin> set ''}oops{''\<close> by simp
  have h3: \<open>cropped ''}oops{'' = None\<close> by code_simp
  have h4: \<open>json_loads ''}oops{'' = None\<close> by code_simp
  have h5: \<open>\<forall>d. json_loads ''}oops{'' \<noteq> Some (PDict d)\<close> using h4 by simp
  have f: "fused_rx_data ble_demo = rx_defaults" "gps_rx_data ble_demo = rx_defaults"
    "fused_rx_handle ble_demo = 4"
    by (simp_all add: ble_demo_def ble_init_def)
  from fragment_discard[OF h1 h2, of 4 "[]" json_loads] h3 h5
  have \<open>fused_rx_data (save_received_data 4 (''}oops{'' @ [CHR 0x0A]) ble_demo) = fused_rx_data ble_demo\<close>
    and \<open>gps_rx_data (save_received_data 4 (''}oops{'' @ [CHR 0x0A]) ble_demo) = gps_rx_data ble_demo\<close>
    and \<open>rx_buffer (save_received_data 4 (''}oops{'' @ [CHR 0x0A]) ble_demo) = []\<close>
    and \<open>fused_rx_data (save_received_data_1 json_loads 4 (''}oops{'' @ [CHR 0x0A]) ble_demo) =
       fused_rx_data ble_demo\<close>
    and \<open>dict_get (fused_rx_data (save_chunks (fused_rx_handle ble_demo)
             [''not-json\<newline>'', ''{"latitude":3.0}\<newline>''] ble_demo)) ''latitude'' = Some (PFloat 3)\<close>
    by blast+
  then show ?thesis unfolding f using h3 h4 by (intro conjI)
qed

text \<open>
  Claim C4 as stated fails in version 1.3.2: the trimmed line \<open>x{"latitude":3.0}y\<close>
  neither starts with an opening brace nor ends with a closing one, yet it is not
  discarded: it is cropped to its braces and stores latitude 3.0.
\<close>

theorem fragment_discard_counterexample:
  \<open>hd (py_strip ''x{"latitude":3.0}y'') \<noteq> CHR ''{'' \<and>
   last (py_strip ''x{"latitude":3.0}y'') \<noteq> CHR ''}'' \<and>
   dict_get (fused_rx_data ble_demo) ''latitude'' = Some (PFloat 0) \<and>
   dict_get (fused_rx_data (save_received_data (fused_rx_handle ble_demo)
        ''x{"latitude":3.0}y\<newline>'' ble_demo)) ''latitude'' = Some (PFloat 3)\<close>
  by code_simp

end
